theory Spec2Isabelle
  imports Main "HOL-Library.Word"
begin

section \<open>Data model (modwifi\_csi.h)\<close>

text \<open>
  The frame record \<open>csi_frame_t\<close>, field by field. Fixed-width C integers are words
  of that width; the arrays \<open>mac[6]\<close> and \<open>data[CSI_MAX_DATA_LEN]\<close> are lists of
  bytes.
\<close>

record csi_frame =
  rssi :: "8 word"
  rate :: "8 word"
  mac :: "8 word list"
  timestamp_us :: "32 word"
  data :: "8 word list"
  len :: "16 word"
  sig_mode :: "8 word"
  mcs :: "8 word"
  cwb :: "8 word"
  smoothing :: "8 word"
  not_sounding :: "8 word"
  aggregation :: "8 word"
  stbc :: "8 word"
  fec_coding :: "8 word"
  sgi :: "8 word"
  noise_floor :: "8 word"
  ampdu_cnt :: "16 word"
  channel :: "8 word"
  secondary_channel :: "8 word"
  local_timestamp :: "32 word"
  ant :: "16 word"
  sig_len :: "16 word"
  rx_state :: "32 word"

text \<open>
  \<open>sizeof(csi_frame_t)\<close> on the 32-bit ESP32 targets: the fields of the header laid
  out in order with natural alignment occupy 168 bytes (no padding is needed).
  \<open>size_t\<close> is 32 bits wide there, so the byte count handed to \<open>malloc\<close> is a
  32-bit product.
\<close>

definition sizeof_csi_frame_t :: "32 word" where
  "sizeof_csi_frame_t = 168"

text \<open>
  The circular buffer \<open>csi_buffer_t\<close>. The pointer \<open>frames\<close> is \<open>None\<close> for
  \<open>NULL\<close> and otherwise holds the slots of the allocated array. The field \<open>size\<close>
  of the source is \<open>size_buf\<close> here (\<open>size\<close> is a constant of HOL).
\<close>

record csi_buffer =
  frames :: "csi_frame list option"
  head :: "32 word"
  tail :: "32 word"
  size_buf :: "32 word"
  dropped :: "32 word"
  initialized :: bool

record csi_config =
  lltf_en :: bool
  htltf_en :: bool
  stbc_htltf2_en :: bool
  ltf_merge_en :: bool
  channel_filter_en :: bool
  manu_scale :: bool
  shift :: "8 word"
  buffer_size :: "32 word"

record csi_state =
  buffer :: csi_buffer
  config :: csi_config
  enabled :: bool

section \<open>The environment: radio driver and heap\<close>

text \<open>
  \<open>esp_err_t\<close> is a C \<open>int\<close>, here its 32 bits; the module only compares and
  passes such codes on. The three codes it names come from ESP-IDF's \<open>esp_err.h\<close>.
\<close>

type_synonym esp_err_t = "32 word"

definition ESP_OK :: esp_err_t where
  "ESP_OK = 0"

definition ESP_ERR_NO_MEM :: esp_err_t where
  "ESP_ERR_NO_MEM = 0x101"

definition ESP_ERR_INVALID_ARG :: esp_err_t where
  "ESP_ERR_INVALID_ARG = 0x102"

text \<open>The build targets the preprocessor conditionals of the module distinguish.\<close>

datatype idf_target = ESP32 | ESP32S2 | ESP32S3 | ESP32C3 | ESP32C5 | ESP32C6

datatype wifi_protocol =
  WIFI_PROTOCOL_11B | WIFI_PROTOCOL_11G | WIFI_PROTOCOL_11N | WIFI_PROTOCOL_11AX

text \<open>
  The driver's \<open>wifi_csi_config_t\<close>: the legacy layout (ESP32, S2, S3, C3) and the
  acquisition layout of the WiFi 6 parts; the C5 has no \<open>acquire_csi_he_stbc\<close>
  field, hence the option.
\<close>

record wifi_csi_legacy_config =
  drv_lltf_en :: bool
  drv_htltf_en :: bool
  drv_stbc_htltf2_en :: bool
  drv_ltf_merge_en :: bool
  drv_channel_filter_en :: bool
  drv_manu_scale :: bool
  drv_shift :: "8 word"
  drv_dump_ack_en :: bool

record wifi_csi_acquire_config =
  acq_enable :: nat
  acquire_csi_legacy :: nat
  acquire_csi_ht20 :: nat
  acquire_csi_ht40 :: nat
  acquire_csi_su :: nat
  acquire_csi_mu :: nat
  acquire_csi_dcm :: nat
  acquire_csi_beamformed :: nat
  acquire_csi_he_stbc :: "nat option"
  val_scale_cfg :: nat
  acq_dump_ack_en :: nat

datatype wifi_csi_config_t =
  Legacy_config wifi_csi_legacy_config
| Acquire_config wifi_csi_acquire_config

text \<open>
  Every call that leaves the module: the six driver entry points it uses, and the
  heap. The calls made so far are kept in a log, oldest first.
\<close>

datatype call =
  Esp_wifi_set_protocol "wifi_protocol list"
| Esp_wifi_set_bandwidth
| Esp_wifi_set_promiscuous bool
| Esp_wifi_set_csi_config wifi_csi_config_t
| Esp_wifi_set_csi_rx_cb
| Esp_wifi_set_csi bool
| Malloc "32 word"
| Free

text \<open>
  The environment answers each call; an answer may depend on everything called
  before. \<open>malloc_ret\<close> is \<open>None\<close> when \<open>malloc\<close> returns \<open>NULL\<close>; otherwise it
  gives the (uninitialised) contents found in the fresh block, slot by slot.

  The model is sequential: every function runs to its end on the state it is
  given. The interrupt handler is not interleaved with the control functions.
\<close>

record env =
  target :: idf_target
  drv_ret :: "call list \<Rightarrow> call \<Rightarrow> esp_err_t"
  malloc_ret :: "call list \<Rightarrow> 32 word \<Rightarrow> (nat \<Rightarrow> csi_frame) option"

record world =
  g_csi_state :: csi_state
  calls :: "call list"

section \<open>Circular buffer (modwifi\_csi.c, lines 76--148)\<close>

text \<open>
  \<open>csi_buffer_init\<close>: frees the old array when the buffer is marked initialised and
  the pointer is not \<open>NULL\<close>, then stores the result of
  \<open>malloc(sizeof(csi_frame_t) * size)\<close> in \<open>frames\<close>. On \<open>NULL\<close> it returns
  \<open>false\<close> at once; otherwise it sets size, head, tail, dropped and the flag. The
  block holds as many whole slots as its byte count allows.
\<close>

definition csi_buffer_init ::
  "env \<Rightarrow> 32 word \<Rightarrow> csi_buffer \<times> call list \<Rightarrow> bool \<times> csi_buffer \<times> call list" where
  "csi_buffer_init e sz = (\<lambda>(buf, log).
     let log1 = (if initialized buf \<and> frames buf \<noteq> None then log @ [Free] else log);
         bytes = sizeof_csi_frame_t * sz;
         log2 = log1 @ [Malloc bytes]
     in case malloc_ret e log1 bytes of
          None \<Rightarrow> (False, buf\<lparr>frames := None\<rparr>, log2)
        | Some junk \<Rightarrow>
            (True,
             buf\<lparr>frames := Some (map junk [0..<unat bytes div unat sizeof_csi_frame_t]),
                 size_buf := sz, head := 0, tail := 0, dropped := 0,
                 initialized := True\<rparr>,
             log2))"

definition csi_buffer_deinit :: "csi_buffer \<times> call list \<Rightarrow> csi_buffer \<times> call list" where
  "csi_buffer_deinit = (\<lambda>(buf, log).
     if initialized buf \<and> frames buf \<noteq> None
     then (buf\<lparr>frames := None, initialized := False\<rparr>, log @ [Free])
     else (buf, log))"

definition csi_buffer_is_empty :: "csi_buffer \<Rightarrow> bool" where
  "csi_buffer_is_empty buf = (head buf = tail buf)"

text \<open>
  What C leaves undefined is a fault of the model: the remainder by a zero size, and
  a copy through a \<open>NULL\<close> pointer or past the end of the array.
\<close>

datatype fault = Division_by_zero | Bad_access

text \<open>
  \<open>csi_buffer_write\<close> returns the C function's \<open>bool\<close> and the buffer after the
  call.
\<close>

definition csi_buffer_write :: "csi_buffer \<Rightarrow> csi_frame \<Rightarrow> fault + (bool \<times> csi_buffer)" where
  "csi_buffer_write buf frame =
     (if \<not> initialized buf then Inr (False, buf)
      else if size_buf buf = 0 then Inl Division_by_zero
      else
        let next_head = (head buf + 1) mod size_buf buf in
        if next_head = tail buf then Inr (False, buf\<lparr>dropped := dropped buf + 1\<rparr>)
        else case frames buf of
               None \<Rightarrow> Inl Bad_access
             | Some fs \<Rightarrow>
                 if unat (head buf) < length fs
                 then Inr (True, buf\<lparr>frames := Some (fs[unat (head buf) := frame]),
                                      head := next_head\<rparr>)
                 else Inl Bad_access)"

text \<open>
  \<open>csi_buffer_read\<close> returns \<open>None\<close> for the C function's \<open>false\<close> (the
  destination is not written) and \<open>Some frame\<close> for \<open>true\<close> with the frame copied
  out.
\<close>

definition csi_buffer_read :: "csi_buffer \<Rightarrow> fault + (csi_frame option \<times> csi_buffer)" where
  "csi_buffer_read buf =
     (if \<not> initialized buf \<or> csi_buffer_is_empty buf then Inr (None, buf)
      else case frames buf of
             None \<Rightarrow> Inl Bad_access
           | Some fs \<Rightarrow>
               if unat (tail buf) < length fs
               then (if size_buf buf = 0 then Inl Division_by_zero
                     else Inr (Some (fs ! unat (tail buf)),
                               buf\<lparr>tail := (tail buf + 1) mod size_buf buf\<rparr>))
               else Inl Bad_access)"

text \<open>The count computed by \<open>wifi_csi_available_obj\<close> (lines 643--654).\<close>

definition wifi_csi_available :: "csi_buffer \<Rightarrow> 32 word" where
  "wifi_csi_available buf =
     (if \<not> initialized buf then 0
      else if head buf \<ge> tail buf then head buf - tail buf
      else size_buf buf - tail buf + head buf)"

text \<open>Sequences of calls: one write per frame of a list, and \<open>n\<close> reads in a row.\<close>

fun write_all :: "csi_buffer \<Rightarrow> csi_frame list \<Rightarrow> fault + (bool list \<times> csi_buffer)" where
  "write_all buf [] = Inr ([], buf)"
| "write_all buf (f # fs) =
     (case csi_buffer_write buf f of
        Inl x \<Rightarrow> Inl x
      | Inr (ok, buf') \<Rightarrow>
          (case write_all buf' fs of
             Inl x \<Rightarrow> Inl x
           | Inr (oks, buf'') \<Rightarrow> Inr (ok # oks, buf'')))"

fun read_n :: "nat \<Rightarrow> csi_buffer \<Rightarrow> fault + (csi_frame option list \<times> csi_buffer)" where
  "read_n 0 buf = Inr ([], buf)"
| "read_n (Suc n) buf =
     (case csi_buffer_read buf of
        Inl x \<Rightarrow> Inl x
      | Inr (r, buf') \<Rightarrow>
          (case read_n n buf' of
             Inl x \<Rightarrow> Inl x
           | Inr (rs, buf'') \<Rightarrow> Inr (r # rs, buf'')))"

section \<open>Capture controller (modwifi\_csi.c, lines 50--70 and 225--520)\<close>

text \<open>The initial value of the global \<open>g_csi_state\<close>; \<open>CSI_DEFAULT_BUFFER_SIZE\<close> is 128.\<close>

definition CSI_DEFAULT_BUFFER_SIZE :: "32 word" where
  "CSI_DEFAULT_BUFFER_SIZE = 128"

definition g_csi_state_init :: csi_state where
  "g_csi_state_init =
     \<lparr>buffer = \<lparr>frames = None, head = 0, tail = 0, size_buf = 0, dropped = 0,
                 initialized = False\<rparr>,
      config = \<lparr>lltf_en = True, htltf_en = True, stbc_htltf2_en = True,
                 ltf_merge_en = True, channel_filter_en = True, manu_scale = False,
                 shift = 0, buffer_size = CSI_DEFAULT_BUFFER_SIZE\<rparr>,
      enabled = False\<rparr>"

text \<open>A driver call: the environment's answer, and the call appended to the log.\<close>

definition drv :: "env \<Rightarrow> call \<Rightarrow> world \<Rightarrow> esp_err_t \<times> world" where
  "drv e c w = (drv_ret e (calls w) c, w\<lparr>calls := calls w @ [c]\<rparr>)"

text \<open>The buffer operations applied to the buffer of the global state.\<close>

definition buffer_init :: "env \<Rightarrow> 32 word \<Rightarrow> world \<Rightarrow> bool \<times> world" where
  "buffer_init e sz w =
     (case csi_buffer_init e sz (buffer (g_csi_state w), calls w) of
        (ok, b, l) \<Rightarrow> (ok, w\<lparr>g_csi_state := (g_csi_state w)\<lparr>buffer := b\<rparr>, calls := l\<rparr>))"

definition buffer_deinit :: "world \<Rightarrow> world" where
  "buffer_deinit w =
     (case csi_buffer_deinit (buffer (g_csi_state w), calls w) of
        (b, l) \<Rightarrow> w\<lparr>g_csi_state := (g_csi_state w)\<lparr>buffer := b\<rparr>, calls := l\<rparr>)"

text \<open>
  The argument of \<open>esp_wifi_set_protocol\<close> and the local \<open>csi_config\<close> of
  \<open>wifi_csi_enable\<close>, as the conditionals on the target select them.
\<close>

definition enable_protocols :: "idf_target \<Rightarrow> wifi_protocol list" where
  "enable_protocols t =
     (if t = ESP32C6 \<or> t = ESP32C5
      then [WIFI_PROTOCOL_11B, WIFI_PROTOCOL_11G, WIFI_PROTOCOL_11N, WIFI_PROTOCOL_11AX]
      else [WIFI_PROTOCOL_11B, WIFI_PROTOCOL_11G, WIFI_PROTOCOL_11N])"

definition enable_csi_config :: "idf_target \<Rightarrow> csi_config \<Rightarrow> wifi_csi_config_t" where
  "enable_csi_config t c =
     (if t = ESP32C6 then
        Acquire_config
          \<lparr>acq_enable = 1, acquire_csi_legacy = 1, acquire_csi_ht20 = 1,
           acquire_csi_ht40 = 0, acquire_csi_su = 1, acquire_csi_mu = 0,
           acquire_csi_dcm = 0, acquire_csi_beamformed = 0,
           acquire_csi_he_stbc = Some 0, val_scale_cfg = 0, acq_dump_ack_en = 0\<rparr>
      else if t = ESP32C5 then
        Acquire_config
          \<lparr>acq_enable = 1, acquire_csi_legacy = 1, acquire_csi_ht20 = 1,
           acquire_csi_ht40 = 0, acquire_csi_su = 1, acquire_csi_mu = 0,
           acquire_csi_dcm = 0, acquire_csi_beamformed = 0,
           acquire_csi_he_stbc = None, val_scale_cfg = 0, acq_dump_ack_en = 0\<rparr>
      else
        Legacy_config
          \<lparr>drv_lltf_en = lltf_en c, drv_htltf_en = htltf_en c,
           drv_stbc_htltf2_en = stbc_htltf2_en c, drv_ltf_merge_en = ltf_merge_en c,
           drv_channel_filter_en = channel_filter_en c, drv_manu_scale = manu_scale c,
           drv_shift = shift c, drv_dump_ack_en = False\<rparr>)"

text \<open>
  \<open>wifi_csi_enable\<close> (lines 239--464). The results of \<open>esp_wifi_set_protocol\<close> and
  \<open>esp_wifi_set_bandwidth\<close> are only logged by the source; the other four calls
  return on a code other than \<open>ESP_OK\<close>.
\<close>

definition wifi_csi_enable :: "env \<Rightarrow> world \<Rightarrow> esp_err_t \<times> world" where
  "wifi_csi_enable e w =
     (if enabled (g_csi_state w) then (ESP_OK, w)
      else
        case (if \<not> initialized (buffer (g_csi_state w))
              then buffer_init e (buffer_size (config (g_csi_state w))) w
              else (True, w)) of
          (False, w0) \<Rightarrow> (ESP_ERR_NO_MEM, w0)
        | (True, w0) \<Rightarrow>
            let (r1, w1) = drv e (Esp_wifi_set_protocol (enable_protocols (target e))) w0;
                (r2, w2) = drv e Esp_wifi_set_bandwidth w1;
                (r3, w3) = drv e (Esp_wifi_set_promiscuous False) w2
            in if r3 \<noteq> ESP_OK then (r3, w3)
               else
                 let (r4, w4) =
                       drv e (Esp_wifi_set_csi_config
                                (enable_csi_config (target e) (config (g_csi_state w3)))) w3
                 in if r4 \<noteq> ESP_OK then (r4, w4)
                    else
                      let (r5, w5) = drv e Esp_wifi_set_csi_rx_cb w4
                      in if r5 \<noteq> ESP_OK then (r5, w5)
                         else
                           let (r6, w6) = drv e (Esp_wifi_set_csi True) w5
                           in if r6 \<noteq> ESP_OK then (r6, w6)
                              else (ESP_OK,
                                    w6\<lparr>g_csi_state := (g_csi_state w6)\<lparr>enabled := True\<rparr>\<rparr>))"

text \<open>\<open>wifi_csi_disable\<close> (lines 466--484).\<close>

definition wifi_csi_disable :: "env \<Rightarrow> world \<Rightarrow> esp_err_t \<times> world" where
  "wifi_csi_disable e w =
     (if \<not> enabled (g_csi_state w) then (ESP_OK, w)
      else
        let (ret, w1) = drv e (Esp_wifi_set_csi False) w
        in if ret \<noteq> ESP_OK then (ret, w1)
           else (ESP_OK, w1\<lparr>g_csi_state := (g_csi_state w1)\<lparr>enabled := False\<rparr>\<rparr>))"

text \<open>\<open>wifi_csi_init\<close> and \<open>wifi_csi_deinit\<close> (lines 225--237); both return nothing.\<close>

definition wifi_csi_init :: "env \<Rightarrow> world \<Rightarrow> world" where
  "wifi_csi_init e w =
     (if \<not> initialized (buffer (g_csi_state w))
      then snd (buffer_init e (buffer_size (config (g_csi_state w))) w)
      else w)"

definition wifi_csi_deinit :: "env \<Rightarrow> world \<Rightarrow> world" where
  "wifi_csi_deinit e w =
     buffer_deinit (if enabled (g_csi_state w) then snd (wifi_csi_disable e w) else w)"

text \<open>
  \<open>wifi_csi_config\<close> (lines 486--516). The argument is a pointer: \<open>None\<close> is
  \<open>NULL\<close>. The result of the inner \<open>wifi_csi_disable\<close> is dropped, as in the source.
\<close>

definition wifi_csi_config :: "env \<Rightarrow> csi_config option \<Rightarrow> world \<Rightarrow> esp_err_t \<times> world" where
  "wifi_csi_config e cfg w =
     (case cfg of
        None \<Rightarrow> (ESP_ERR_INVALID_ARG, w)
      | Some c \<Rightarrow>
          let w1 = w\<lparr>g_csi_state := (g_csi_state w)\<lparr>config := c\<rparr>\<rparr> in
          if buffer_size c \<noteq> size_buf (buffer (g_csi_state w1)) then
            let was_enabled = enabled (g_csi_state w1);
                w2 = (if was_enabled then snd (wifi_csi_disable e w1) else w1);
                w3 = buffer_deinit w2;
                (ok, w4) = buffer_init e (buffer_size c) w3
            in if \<not> ok then (ESP_ERR_NO_MEM, w4)
               else if was_enabled then wifi_csi_enable e w4
               else (ESP_OK, w4)
          else if enabled (g_csi_state w1) then wifi_csi_enable e w1
          else (ESP_OK, w1))"

text \<open>\<open>wifi_csi_read_frame\<close> (lines 518--520).\<close>

definition wifi_csi_read_frame :: "world \<Rightarrow> fault + (csi_frame option \<times> world)" where
  "wifi_csi_read_frame w =
     (case csi_buffer_read (buffer (g_csi_state w)) of
        Inl x \<Rightarrow> Inl x
      | Inr (r, b) \<Rightarrow> Inr (r, w\<lparr>g_csi_state := (g_csi_state w)\<lparr>buffer := b\<rparr>\<rparr>))"

section \<open>Notions used to state the properties\<close>

text \<open>
  A buffer in working order: marked initialised, a non-zero size, both indices
  below the size, and an array of exactly \<open>size\<close> slots.
\<close>

definition buf_ok :: "csi_buffer \<Rightarrow> bool" where
  "buf_ok b \<longleftrightarrow>
     initialized b \<and> size_buf b \<noteq> 0 \<and> head b < size_buf b \<and> tail b < size_buf b \<and>
     map_option length (frames b) = Some (unat (size_buf b))"

text \<open>
  The unread frames, oldest first: the slots from \<open>tail\<close> onwards, as many as
  \<open>wifi_csi_available\<close> counts.
\<close>

definition queued :: "csi_buffer \<Rightarrow> csi_frame list" where
  "queued b =
     (case frames b of
        None \<Rightarrow> []
      | Some fs \<Rightarrow>
          map (\<lambda>i. fs ! ((unat (tail b) + i) mod unat (size_buf b)))
            [0..<unat (wifi_csi_available b)])"

text \<open>
  A buffer marked initialised holds storage. The global buffer starts this way and
  every function of the module keeps it so (lemmas \<open>storage_ok_boot\<close> to
  \<open>storage_ok_config\<close> below).
\<close>

definition storage_ok :: "csi_buffer \<Rightarrow> bool" where
  "storage_ok b \<longleftrightarrow> (initialized b \<longrightarrow> frames b \<noteq> None)"

text \<open>The distance from \<open>t\<close> to \<open>h\<close> on a ring of \<open>N\<close> positions.\<close>

definition cnt :: "nat \<Rightarrow> nat \<Rightarrow> nat \<Rightarrow> nat" where
  "cnt h t N = (if t \<le> h then h - t else N - t + h)"

text \<open>
  The buffer \<open>csi_buffer_init\<close> leaves behind when the allocation of \<open>sz\<close> slots
  succeeds with contents \<open>junk\<close>.
\<close>

definition fresh_buffer :: "csi_buffer \<Rightarrow> 32 word \<Rightarrow> (nat \<Rightarrow> csi_frame) \<Rightarrow> csi_buffer" where
  "fresh_buffer buf sz junk =
     buf\<lparr>frames := Some (map junk [0..<unat (sizeof_csi_frame_t * sz) div unat sizeof_csi_frame_t]),
         size_buf := sz, head := 0, tail := 0, dropped := 0, initialized := True\<rparr>"

text \<open>
  The four driver calls of \<open>wifi_csi_enable\<close> whose failure ends it, in the order
  of the source.
\<close>

definition enable_steps :: "idf_target \<Rightarrow> csi_config \<Rightarrow> call list" where
  "enable_steps t c =
     [Esp_wifi_set_promiscuous False, Esp_wifi_set_csi_config (enable_csi_config t c),
      Esp_wifi_set_csi_rx_cb, Esp_wifi_set_csi True]"

text \<open>
  The world in which the driver calls of \<open>wifi_csi_enable\<close> start (the buffer has
  been allocated if it was missing), and the log up to the first call that can end
  the function.
\<close>

definition enable_base :: "env \<Rightarrow> world \<Rightarrow> world" where
  "enable_base e w =
     (if \<not> initialized (buffer (g_csi_state w))
      then snd (buffer_init e (buffer_size (config (g_csi_state w))) w) else w)"

definition enable_pre :: "env \<Rightarrow> world \<Rightarrow> call list" where
  "enable_pre e w =
     calls (enable_base e w) @
       [Esp_wifi_set_protocol (enable_protocols (target e)), Esp_wifi_set_bandwidth]"

text \<open>
  Every \<open>esp_wifi_set_csi_config\<close> among the calls \<open>cs\<close> passes the driver
  configuration \<open>k\<close>.
\<close>

definition applies_only :: "wifi_csi_config_t \<Rightarrow> call list \<Rightarrow> bool" where
  "applies_only k cs =
     list_all (\<lambda>c. case c of Esp_wifi_set_csi_config k' \<Rightarrow> k' = k | _ \<Rightarrow> True) cs"

text \<open>
  The log of \<open>w'\<close> continues the log of \<open>w\<close>, and every
  \<open>esp_wifi_set_csi_config\<close> among the calls added passes \<open>k\<close>.
\<close>

definition log_grows :: "wifi_csi_config_t \<Rightarrow> world \<Rightarrow> world \<Rightarrow> bool" where
  "log_grows k w w' \<longleftrightarrow>
     take (length (calls w)) (calls w') = calls w \<and>
     applies_only k (drop (length (calls w)) (calls w'))"

subsection \<open>Concrete frames, environments and states\<close>

text \<open>The frame \<open>memset\<close> to zero, and frames told apart by their timestamp.\<close>

definition zero_frame :: csi_frame where
  "zero_frame =
     \<lparr>rssi = 0, rate = 0, mac = replicate 6 0, timestamp_us = 0, data = replicate 128 0,
      len = 0, sig_mode = 0, mcs = 0, cwb = 0, smoothing = 0, not_sounding = 0,
      aggregation = 0, stbc = 0, fec_coding = 0, sgi = 0, noise_floor = 0, ampdu_cnt = 0,
      channel = 0, secondary_channel = 0, local_timestamp = 0, ant = 0, sig_len = 0,
      rx_state = 0\<rparr>"

definition test_frame :: "32 word \<Rightarrow> csi_frame" where
  "test_frame k = zero_frame\<lparr>timestamp_us := k\<rparr>"

text \<open>
  Environments on an ESP32: everything succeeds; \<open>malloc\<close> fails; \<open>malloc\<close>
  refuses the first request for each byte count and grants the later ones; the
  driver refuses to stop capture; the driver refuses the first
  \<open>esp_wifi_set_csi(true)\<close> and accepts the later ones; the driver refuses
  \<open>esp_wifi_set_protocol\<close> and \<open>esp_wifi_set_bandwidth\<close> and accepts everything
  else; the driver refuses to stop capture and \<open>malloc\<close> fails. \<open>0x3001\<close> is a
  driver code other than \<open>ESP_OK\<close>.
\<close>

definition env_ok :: env where
  "env_ok = \<lparr>target = ESP32, drv_ret = (\<lambda>log c. ESP_OK),
             malloc_ret = (\<lambda>log n. Some (\<lambda>i. zero_frame))\<rparr>"

definition env_no_mem :: env where
  "env_no_mem = \<lparr>target = ESP32, drv_ret = (\<lambda>log c. ESP_OK),
                 malloc_ret = (\<lambda>log n. None)\<rparr>"

definition env_no_mem_once :: env where
  "env_no_mem_once =
     \<lparr>target = ESP32, drv_ret = (\<lambda>log c. ESP_OK),
      malloc_ret = (\<lambda>log n. if Malloc n \<in> set log then Some (\<lambda>i. zero_frame) else None)\<rparr>"

definition env_stop_fails :: env where
  "env_stop_fails =
     \<lparr>target = ESP32,
      drv_ret = (\<lambda>log c. if c = Esp_wifi_set_csi False then 0x3001 else ESP_OK),
      malloc_ret = (\<lambda>log n. Some (\<lambda>i. zero_frame))\<rparr>"

definition env_start_fails_once :: env where
  "env_start_fails_once =
     \<lparr>target = ESP32,
      drv_ret = (\<lambda>log c. if c = Esp_wifi_set_csi True \<and> Esp_wifi_set_csi True \<notin> set log
                          then 0x3001 else ESP_OK),
      malloc_ret = (\<lambda>log n. Some (\<lambda>i. zero_frame))\<rparr>"

definition env_protocol_fails :: env where
  "env_protocol_fails =
     \<lparr>target = ESP32,
      drv_ret = (\<lambda>log c. case c of Esp_wifi_set_protocol ps \<Rightarrow> 0x3001
                                   | Esp_wifi_set_bandwidth \<Rightarrow> 0x3001
                                   | _ \<Rightarrow> ESP_OK),
      malloc_ret = (\<lambda>log n. Some (\<lambda>i. zero_frame))\<rparr>"

definition env_stop_fails_no_mem :: env where
  "env_stop_fails_no_mem =
     \<lparr>target = ESP32,
      drv_ret = (\<lambda>log c. if c = Esp_wifi_set_csi False then 0x3001 else ESP_OK),
      malloc_ret = (\<lambda>log n. None)\<rparr>"

text \<open>
  A buffer of four slots holding two unread frames; the same controller enabled and
  disabled; a full buffer whose drop counter is at its maximum; an empty buffer
  whose indices stand on the last slot.
\<close>

definition live_buffer :: csi_buffer where
  "live_buffer =
     \<lparr>frames = Some [test_frame 1, test_frame 2, zero_frame, zero_frame],
      head = 2, tail = 0, size_buf = 4, dropped = 0, initialized = True\<rparr>"

definition live_world :: world where
  "live_world =
     \<lparr>g_csi_state =
        \<lparr>buffer = live_buffer, config = (config g_csi_state_init)\<lparr>buffer_size := 4\<rparr>,
         enabled = True\<rparr>,
      calls = []\<rparr>"

definition idle_world :: world where
  "idle_world = live_world\<lparr>g_csi_state := (g_csi_state live_world)\<lparr>enabled := False\<rparr>\<rparr>"

definition boot_world :: world where
  "boot_world = \<lparr>g_csi_state = g_csi_state_init, calls = []\<rparr>"

definition full_buffer :: csi_buffer where
  "full_buffer =
     \<lparr>frames = Some [test_frame 1, test_frame 2, test_frame 3, zero_frame],
      head = 3, tail = 0, size_buf = 4, dropped = 0xFFFFFFFF, initialized = True\<rparr>"

definition empty_buffer :: csi_buffer where
  "empty_buffer =
     \<lparr>frames = Some [zero_frame, zero_frame, zero_frame, zero_frame],
      head = 3, tail = 3, size_buf = 4, dropped = 0, initialized = True\<rparr>"

definition cfg_no_lltf :: csi_config where
  "cfg_no_lltf = (config g_csi_state_init)\<lparr>lltf_en := False, buffer_size := 4\<rparr>"

definition cfg_size_8 :: csi_config where
  "cfg_size_8 = (config g_csi_state_init)\<lparr>buffer_size := 8\<rparr>"

section \<open>Lemmas on the circular buffer\<close>

subsection \<open>Index arithmetic\<close>

lemma next_mod: "h < N \<Longrightarrow> Suc h mod N = (if Suc h = N then 0 else Suc h)"
  by auto

lemma idx_mod: "t < N \<Longrightarrow> i < N \<Longrightarrow> (t + i) mod N = (if t + i < N then t + i else t + i - N)"
  for t i N :: nat
  by (auto simp: not_less mod_if)

lemma cnt_less: "t < N \<Longrightarrow> h < N \<Longrightarrow> cnt h t N < N"
  by (auto simp: cnt_def)

lemma cnt_end: "t < N \<Longrightarrow> h < N \<Longrightarrow> (t + cnt h t N) mod N = h"
  by (auto simp: cnt_def)

lemma cnt_before: "t < N \<Longrightarrow> h < N \<Longrightarrow> i < cnt h t N \<Longrightarrow> (t + i) mod N \<noteq> h"
  by (auto simp: cnt_def idx_mod split: if_splits)

lemma cnt_push:
  "t < N \<Longrightarrow> h < N \<Longrightarrow> Suc h mod N \<noteq> t \<Longrightarrow> cnt (Suc h mod N) t N = Suc (cnt h t N)"
  by (auto simp: cnt_def next_mod split: if_splits)

lemma cnt_pop:
  "t < N \<Longrightarrow> h < N \<Longrightarrow> h \<noteq> t \<Longrightarrow> Suc (cnt h (Suc t mod N) N) = cnt h t N"
  by (auto simp: cnt_def next_mod split: if_splits)

lemma cnt_full: "t < N \<Longrightarrow> h < N \<Longrightarrow> (Suc h mod N = t) = (cnt h t N = N - 1)"
  by (auto simp: cnt_def next_mod split: if_splits)

lemma cnt_empty: "t < N \<Longrightarrow> h < N \<Longrightarrow> (cnt h t N = 0) = (h = t)"
  by (auto simp: cnt_def)

lemma idx_shift: "(Suc t mod N + i) mod N = (t + Suc i) mod N"
  by (simp add: mod_add_left_eq)

lemma unat_next:
  fixes x N :: "32 word"
  assumes "x < N"
  shows "unat ((x + 1) mod N) = Suc (unat x) mod unat N"
proof -
  from assms have "unat x < unat N"
    by (simp add: word_less_nat_alt)
  moreover have "unat N < 2 ^ 32"
    using unsigned_less [of N] by simp
  ultimately have "unat x + unat (1 :: 32 word) < 2 ^ LENGTH(32)"
    by simp
  then have "unat (x + 1) = unat x + 1"
    by (simp add: unat_add_lem [THEN iffD1])
  then show ?thesis
    by (simp add: unat_mod)
qed

lemma buf_ok_nat:
  assumes "buf_ok b"
  shows "unat (head b) < unat (size_buf b)" "unat (tail b) < unat (size_buf b)"
    "0 < unat (size_buf b)" "initialized b" "size_buf b \<noteq> 0"
  using assms by (simp_all add: buf_ok_def word_less_nat_alt unat_gt_0)

lemma available_nat:
  assumes "buf_ok b"
  shows "unat (wifi_csi_available b) = cnt (unat (head b)) (unat (tail b)) (unat (size_buf b))"
proof (cases "tail b \<le> head b")
  case True
  with assms show ?thesis
    by (simp add: wifi_csi_available_def cnt_def buf_ok_def unat_sub word_le_nat_alt)
next
  case False
  from assms have t: "tail b \<le> size_buf b"
    by (simp add: buf_ok_def less_imp_le)
  then have 1: "unat (size_buf b - tail b) = unat (size_buf b) - unat (tail b)"
    by (rule unat_sub)
  from False have lt: "unat (head b) < unat (tail b)"
    by (simp add: word_le_nat_alt)
  from t have "unat (tail b) \<le> unat (size_buf b)"
    by (simp add: word_le_nat_alt)
  with lt have "unat (size_buf b) - unat (tail b) + unat (head b) < unat (size_buf b)"
    by arith
  moreover have "unat (size_buf b) < 2 ^ LENGTH(32)"
    by (rule unsigned_less)
  ultimately have "unat (size_buf b - tail b) + unat (head b) < 2 ^ LENGTH(32)"
    using 1 by simp
  then have "unat (size_buf b - tail b + head b) = unat (size_buf b - tail b) + unat (head b)"
    by (simp add: unat_add_lem [THEN iffD1])
  with 1 False lt assms show ?thesis
    by (simp add: wifi_csi_available_def cnt_def buf_ok_def)
qed

subsection \<open>One write, one read\<close>

lemma queued_nat:
  assumes "buf_ok b" "frames b = Some fs"
  shows "queued b =
           map (\<lambda>i. fs ! ((unat (tail b) + i) mod unat (size_buf b)))
             [0..<cnt (unat (head b)) (unat (tail b)) (unat (size_buf b))]"
  using assms by (simp add: queued_def available_nat)

lemma length_queued:
  assumes "buf_ok b"
  shows "length (queued b) = cnt (unat (head b)) (unat (tail b)) (unat (size_buf b))"
proof -
  from assms obtain fs where "frames b = Some fs"
    by (auto simp: buf_ok_def)
  with assms show ?thesis
    by (simp add: queued_nat)
qed

lemma full_iff:
  assumes "buf_ok b"
  shows "((head b + 1) mod size_buf b = tail b) = (length (queued b) = unat (size_buf b) - 1)"
proof -
  have "((head b + 1) mod size_buf b = tail b)
          = (Suc (unat (head b)) mod unat (size_buf b) = unat (tail b))"
    using assms by (simp add: word_unat_eq_iff unat_next buf_ok_def)
  also have "\<dots> = (cnt (unat (head b)) (unat (tail b)) (unat (size_buf b)) = unat (size_buf b) - 1)"
    using assms by (simp add: cnt_full buf_ok_nat)
  finally show ?thesis
    using assms by (simp add: length_queued)
qed

lemma empty_iff:
  assumes "buf_ok b"
  shows "(head b = tail b) = (queued b = [])"
proof -
  have "(queued b = []) = (length (queued b) = 0)"
    by simp
  also have "\<dots> = (unat (head b) = unat (tail b))"
    using assms by (simp add: length_queued cnt_empty buf_ok_nat)
  finally show ?thesis
    by (simp add: word_unat_eq_iff)
qed

lemma csi_buffer_write_full:
  assumes "initialized b" "size_buf b \<noteq> 0" "(head b + 1) mod size_buf b = tail b"
  shows "csi_buffer_write b f = Inr (False, b\<lparr>dropped := dropped b + 1\<rparr>)"
  using assms by (simp add: csi_buffer_write_def)

lemma csi_buffer_write_room:
  fixes f :: csi_frame
  assumes ok: "buf_ok b" and room: "(head b + 1) mod size_buf b \<noteq> tail b"
    and fs: "frames b = Some fs"
  defines "b' \<equiv> b\<lparr>frames := Some (fs[unat (head b) := f]),
                    head := (head b + 1) mod size_buf b\<rparr>"
  shows "csi_buffer_write b f = Inr (True, b')" and "buf_ok b'" and "queued b' = queued b @ [f]"
proof -
  let ?h = "unat (head b)" and ?t = "unat (tail b)" and ?N = "unat (size_buf b)"
  note nat = buf_ok_nat [OF ok]
  from ok fs have len: "length fs = ?N"
    by (simp add: buf_ok_def)
  from ok have hN: "head b < size_buf b"
    by (simp add: buf_ok_def)
  show "csi_buffer_write b f = Inr (True, b')"
    using nat room fs len by (simp add: csi_buffer_write_def b'_def Let_def)
  have nh: "unat ((head b + 1) mod size_buf b) = Suc ?h mod ?N"
    using hN by (rule unat_next)
  have "Suc ?h mod ?N < ?N"
    using nat by simp
  then have "(head b + 1) mod size_buf b < size_buf b"
    by (simp add: word_less_nat_alt nh)
  with ok fs len show ok': "buf_ok b'"
    by (simp add: buf_ok_def b'_def)
  from room have room': "Suc ?h mod ?N \<noteq> ?t"
    by (simp add: word_unat_eq_iff nh)
  have c': "cnt (Suc ?h mod ?N) ?t ?N = Suc (cnt ?h ?t ?N)"
    using nat room' by (simp add: cnt_push)
  have "queued b' =
          map (\<lambda>i. fs[?h := f] ! ((?t + i) mod ?N)) [0..<Suc (cnt ?h ?t ?N)]"
    using queued_nat [OF ok', of "fs[?h := f]"] by (simp add: b'_def nh c')
  also have "\<dots> = map (\<lambda>i. fs[?h := f] ! ((?t + i) mod ?N)) [0..<cnt ?h ?t ?N]
                    @ [fs[?h := f] ! ((?t + cnt ?h ?t ?N) mod ?N)]"
    by simp
  also have "fs[?h := f] ! ((?t + cnt ?h ?t ?N) mod ?N) = f"
    using nat len by (simp add: cnt_end)
  also have "map (\<lambda>i. fs[?h := f] ! ((?t + i) mod ?N)) [0..<cnt ?h ?t ?N]
               = map (\<lambda>i. fs ! ((?t + i) mod ?N)) [0..<cnt ?h ?t ?N]"
  proof (rule map_cong [OF refl])
    fix i
    assume "i \<in> set [0..<cnt ?h ?t ?N]"
    then have "i < cnt ?h ?t ?N"
      by simp
    with nat have "(?t + i) mod ?N \<noteq> ?h"
      by (simp add: cnt_before)
    then show "fs[?h := f] ! ((?t + i) mod ?N) = fs ! ((?t + i) mod ?N)"
      by simp
  qed
  also have "\<dots> = queued b"
    using queued_nat [OF ok fs] by simp
  finally show "queued b' = queued b @ [f]" .
qed

lemma csi_buffer_read_some:
  assumes ok: "buf_ok b" and q: "queued b = x # xs"
  defines "b' \<equiv> b\<lparr>tail := (tail b + 1) mod size_buf b\<rparr>"
  shows "csi_buffer_read b = Inr (Some x, b')" and "buf_ok b'" and "queued b' = xs"
proof -
  let ?h = "unat (head b)" and ?t = "unat (tail b)" and ?N = "unat (size_buf b)"
  note nat = buf_ok_nat [OF ok]
  from ok obtain fs where fs: "frames b = Some fs" and len: "length fs = ?N"
    by (auto simp: buf_ok_def)
  from ok have tN: "tail b < size_buf b"
    by (simp add: buf_ok_def)
  from q have ne: "head b \<noteq> tail b"
    using empty_iff [OF ok] by simp
  then have ne': "?h \<noteq> ?t"
    by (simp add: word_unat_eq_iff)
  have c: "Suc (cnt ?h (Suc ?t mod ?N) ?N) = cnt ?h ?t ?N"
    using nat ne' by (simp add: cnt_pop)
  have qb: "queued b = map (\<lambda>i. fs ! ((?t + i) mod ?N)) [0..<Suc (cnt ?h (Suc ?t mod ?N) ?N)]"
    using queued_nat [OF ok fs] by (simp add: c)
  also have "\<dots> = fs ! ?t # map (\<lambda>i. fs ! ((?t + Suc i) mod ?N)) [0..<cnt ?h (Suc ?t mod ?N) ?N]"
    using nat by (simp add: upt_conv_Cons map_Suc_upt [symmetric] del: upt_Suc)
  finally have split: "x # xs =
      fs ! ?t # map (\<lambda>i. fs ! ((?t + Suc i) mod ?N)) [0..<cnt ?h (Suc ?t mod ?N) ?N]"
    using q by simp
  then have x: "x = fs ! ?t"
    and xs: "xs = map (\<lambda>i. fs ! ((?t + Suc i) mod ?N)) [0..<cnt ?h (Suc ?t mod ?N) ?N]"
    by simp_all
  show "csi_buffer_read b = Inr (Some x, b')"
    using nat ne fs len x
    by (simp add: csi_buffer_read_def csi_buffer_is_empty_def b'_def)
  have nt: "unat ((tail b + 1) mod size_buf b) = Suc ?t mod ?N"
    using tN by (rule unat_next)
  have "Suc ?t mod ?N < ?N"
    using nat by simp
  then have "(tail b + 1) mod size_buf b < size_buf b"
    by (simp add: word_less_nat_alt nt)
  with ok show ok': "buf_ok b'"
    by (simp add: buf_ok_def b'_def)
  have "queued b' = map (\<lambda>i. fs ! ((Suc ?t mod ?N + i) mod ?N)) [0..<cnt ?h (Suc ?t mod ?N) ?N]"
    using queued_nat [OF ok', of fs] fs by (simp add: b'_def nt)
  then show "queued b' = xs"
    by (simp add: xs idx_shift)
qed

lemma csi_buffer_read_none:
  assumes "buf_ok b" "queued b = []"
  shows "csi_buffer_read b = Inr (None, b)" and "head b = tail b"
  using assms empty_iff [of b] by (simp_all add: csi_buffer_read_def csi_buffer_is_empty_def)

subsection \<open>Sequences of writes and reads\<close>

lemma write_all_append:
  "write_all b (xs @ ys) =
     (case write_all b xs of
        Inl x \<Rightarrow> Inl x
      | Inr (oks, b') \<Rightarrow>
          (case write_all b' ys of
             Inl x \<Rightarrow> Inl x
           | Inr (oks', b'') \<Rightarrow> Inr (oks @ oks', b'')))"
  by (induction xs arbitrary: b) (auto split: sum.splits prod.splits)

lemma write_all_room:
  assumes "buf_ok b" "length (queued b) + length fs \<le> unat (size_buf b) - 1"
  shows "\<exists>b'. write_all b fs = Inr (replicate (length fs) True, b') \<and> buf_ok b' \<and>
              queued b' = queued b @ fs \<and> dropped b' = dropped b \<and>
              size_buf b' = size_buf b \<and> tail b' = tail b"
  using assms
proof (induction fs arbitrary: b)
  case Nil
  then show ?case by simp
next
  case (Cons f fs)
  from Cons.prems obtain xs where xs: "frames b = Some xs"
    by (auto simp: buf_ok_def)
  from Cons.prems have "length (queued b) \<noteq> unat (size_buf b) - 1"
    by simp
  with Cons.prems(1) have room: "(head b + 1) mod size_buf b \<noteq> tail b"
    by (simp add: full_iff)
  let ?b1 = "b\<lparr>frames := Some (xs[unat (head b) := f]), head := (head b + 1) mod size_buf b\<rparr>"
  note step = csi_buffer_write_room [OF Cons.prems(1) room xs, of f]
  have "length (queued ?b1) + length fs \<le> unat (size_buf ?b1) - 1"
    using Cons.prems(2) step(3) by simp
  from Cons.IH [OF step(2) this] obtain b' where
    "write_all ?b1 fs = Inr (replicate (length fs) True, b')" "buf_ok b'"
    "queued b' = queued ?b1 @ fs" "dropped b' = dropped ?b1" "size_buf b' = size_buf ?b1"
    "tail b' = tail ?b1"
    by blast
  with step show ?case
    by simp
qed

lemma read_n_queued:
  assumes "buf_ok b" "n \<le> length (queued b)"
  shows "\<exists>b'. read_n n b = Inr (map Some (take n (queued b)), b') \<and> buf_ok b' \<and>
              queued b' = drop n (queued b) \<and> dropped b' = dropped b \<and>
              size_buf b' = size_buf b \<and> head b' = head b \<and> frames b' = frames b"
  using assms
proof (induction n arbitrary: b)
  case 0
  then show ?case by simp
next
  case (Suc n)
  from Suc.prems(2) obtain x xs where q: "queued b = x # xs"
    by (cases "queued b") auto
  let ?b1 = "b\<lparr>tail := (tail b + 1) mod size_buf b\<rparr>"
  note step = csi_buffer_read_some [OF Suc.prems(1) q]
  have "n \<le> length (queued ?b1)"
    using Suc.prems(2) q step(3) by simp
  from Suc.IH [OF step(2) this] obtain b' where
    "read_n n ?b1 = Inr (map Some (take n (queued ?b1)), b')" "buf_ok b'"
    "queued b' = drop n (queued ?b1)" "dropped b' = dropped ?b1" "size_buf b' = size_buf ?b1"
    "head b' = head ?b1" "frames b' = frames ?b1"
    by blast
  with step q show ?case
    by simp
qed

lemma slots_of_size:
  assumes "unat sz * unat sizeof_csi_frame_t < 2 ^ 32"
  shows "unat (sizeof_csi_frame_t * sz) div unat sizeof_csi_frame_t = unat sz"
proof -
  from assms have "unat sizeof_csi_frame_t * unat sz < 2 ^ LENGTH(32)"
    by (simp add: mult.commute)
  then have "unat (sizeof_csi_frame_t * sz) = unat sizeof_csi_frame_t * unat sz"
    by (simp only: unat_mult_lem [THEN iffD1])
  then show ?thesis
    by (simp add: sizeof_csi_frame_t_def)
qed

text \<open>
  The MicroPython binding (\<open>wifi_csi_config_obj\<close>, lines 577--579) accepts sizes
  from 1 to 1024 only; for all of them the byte count of the array fits 32 bits.
\<close>

lemma binding_sizes_fit:
  fixes sz :: "32 word"
  assumes "sz \<le> 1024"
  shows "unat sz * unat sizeof_csi_frame_t < 2 ^ 32"
proof -
  from assms have "unat sz \<le> 1024"
    by (simp add: word_le_nat_alt)
  then have "unat sz * 168 \<le> 1024 * 168"
    by (rule mult_le_mono1)
  then show ?thesis
    by (simp add: sizeof_csi_frame_t_def)
qed

lemma csi_buffer_init_success:
  assumes "csi_buffer_init e sz (b0, log) = (True, b, log')"
  shows "frames b = Some (map (the (malloc_ret e (if initialized b0 \<and> frames b0 \<noteq> None
                                                    then log @ [Free] else log)
                                              (sizeof_csi_frame_t * sz)))
                           [0..<unat (sizeof_csi_frame_t * sz) div unat sizeof_csi_frame_t])"
    and "size_buf b = sz" and "head b = 0" and "tail b = 0" and "dropped b = 0"
    and "initialized b"
  using assms
  by (auto simp: csi_buffer_init_def Let_def split: option.splits)

lemma csi_buffer_init_buf_ok:
  assumes init: "csi_buffer_init e sz (b0, log) = (True, b, log')"
    and fit: "unat sz * unat sizeof_csi_frame_t < 2 ^ 32"
    and nz: "sz \<noteq> 0"
  shows "buf_ok b" and "queued b = []"
proof -
  note f = csi_buffer_init_success [OF init]
  from nz have "0 < sz"
    by (simp add: word_neq_0_conv)
  with f fit show "buf_ok b"
    by (simp add: buf_ok_def slots_of_size)
  from f show "queued b = []"
    by (simp add: queued_def wifi_csi_available_def)
qed

lemma queued_dropped_update: "queued (b\<lparr>dropped := d\<rparr>) = queued b"
  by (simp add: queued_def wifi_csi_available_def split: option.splits)

lemma buf_ok_dropped_update: "buf_ok (b\<lparr>dropped := d\<rparr>) = buf_ok b"
  by (simp add: buf_ok_def)

lemma available_queued:
  assumes "buf_ok b"
  shows "unat (wifi_csi_available b) = length (queued b)"
  using assms by (simp add: available_nat length_queued)

text \<open>
  A buffer in working order stays so under \<open>csi_buffer_write\<close> and
  \<open>csi_buffer_read\<close>, and neither of them faults on it. Together with
  \<open>csi_buffer_init_buf_ok\<close> this makes \<open>buf_ok\<close> hold of every buffer the module
  can reach from a successful initialisation.
\<close>

lemma csi_buffer_write_keeps_ok:
  assumes "buf_ok b"
  shows "\<exists>ok b'. csi_buffer_write b f = Inr (ok, b') \<and> buf_ok b'"
proof (cases "(head b + 1) mod size_buf b = tail b")
  case True
  with assms have "csi_buffer_write b f = Inr (False, b\<lparr>dropped := dropped b + 1\<rparr>)"
    by (simp add: csi_buffer_write_full buf_ok_nat)
  with assms show ?thesis
    by (auto simp: buf_ok_dropped_update)
next
  case False
  from assms obtain fs where "frames b = Some fs"
    by (auto simp: buf_ok_def)
  from csi_buffer_write_room(1,2) [OF assms False this, of f] show ?thesis
    by blast
qed

lemma csi_buffer_read_keeps_ok:
  assumes "buf_ok b"
  shows "\<exists>r b'. csi_buffer_read b = Inr (r, b') \<and> buf_ok b'"
proof (cases "queued b")
  case Nil
  with assms show ?thesis
    by (simp add: csi_buffer_read_none)
next
  case (Cons x xs)
  from csi_buffer_read_some(1,2) [OF assms Cons] show ?thesis
    by blast
qed

lemma fill_then_drop:
  assumes ok: "buf_ok b" and empty: "head b = tail b" and len: "length fs = unat (size_buf b)"
  shows "\<exists>b'. write_all b fs = Inr (replicate (length fs - 1) True @ [False], b') \<and>
              buf_ok b' \<and> queued b' = butlast fs \<and> dropped b' = dropped b + 1 \<and>
              size_buf b' = size_buf b"
proof -
  from buf_ok_nat(3) [OF ok] len have "fs \<noteq> []"
    by auto
  then have fs: "fs = butlast fs @ [last fs]"
    by simp
  from ok empty have q: "queued b = []"
    by (simp add: empty_iff)
  have "length (queued b) + length (butlast fs) \<le> unat (size_buf b) - 1"
    using q len by simp
  from write_all_room [OF ok this] obtain b1 where b1:
    "write_all b (butlast fs) = Inr (replicate (length (butlast fs)) True, b1)" "buf_ok b1"
    "queued b1 = queued b @ butlast fs" "dropped b1 = dropped b" "size_buf b1 = size_buf b"
    by blast
  from b1 q len have "length (queued b1) = unat (size_buf b1) - 1"
    by simp
  with b1(2) have full: "(head b1 + 1) mod size_buf b1 = tail b1"
    by (simp add: full_iff)
  have w: "csi_buffer_write b1 (last fs) = Inr (False, b1\<lparr>dropped := dropped b1 + 1\<rparr>)"
    using b1(2) full by (simp add: csi_buffer_write_full buf_ok_nat)
  have "write_all b (butlast fs @ [last fs])
          = Inr (replicate (length fs - 1) True @ [False], b1\<lparr>dropped := dropped b1 + 1\<rparr>)"
    by (simp add: write_all_append b1(1) w)
  with fs have "write_all b fs
          = Inr (replicate (length fs - 1) True @ [False], b1\<lparr>dropped := dropped b1 + 1\<rparr>)"
    by simp
  with b1 q show ?thesis
    by (simp add: queued_dropped_update buf_ok_dropped_update)
qed

section \<open>Lemmas on the controller\<close>

lemma wifi_csi_enable_enabled:
  "enabled (g_csi_state w) \<Longrightarrow> wifi_csi_enable e w = (ESP_OK, w)"
  by (simp add: wifi_csi_enable_def)

lemma wifi_csi_disable_disabled:
  "\<not> enabled (g_csi_state w) \<Longrightarrow> wifi_csi_disable e w = (ESP_OK, w)"
  by (simp add: wifi_csi_disable_def)

lemma wifi_csi_disable_enabled:
  assumes "enabled (g_csi_state w)"
  shows "fst (wifi_csi_disable e w) = drv_ret e (calls w) (Esp_wifi_set_csi False)"
    and "calls (snd (wifi_csi_disable e w)) = calls w @ [Esp_wifi_set_csi False]"
    and "buffer (g_csi_state (snd (wifi_csi_disable e w))) = buffer (g_csi_state w)"
    and "config (g_csi_state (snd (wifi_csi_disable e w))) = config (g_csi_state w)"
    and "enabled (g_csi_state (snd (wifi_csi_disable e w)))
           = (drv_ret e (calls w) (Esp_wifi_set_csi False) \<noteq> ESP_OK)"
  using assms by (simp_all add: wifi_csi_disable_def drv_def)

lemma wifi_csi_disable_keeps:
  "buffer (g_csi_state (snd (wifi_csi_disable e w))) = buffer (g_csi_state w)"
  "config (g_csi_state (snd (wifi_csi_disable e w))) = config (g_csi_state w)"
  by (simp_all add: wifi_csi_disable_def drv_def)

lemma wifi_csi_enable_keeps_live_buffer:
  "initialized (buffer (g_csi_state w)) \<Longrightarrow>
   buffer (g_csi_state (snd (wifi_csi_enable e w))) = buffer (g_csi_state w)"
  by (simp add: wifi_csi_enable_def drv_def)

lemma buffer_init_config:
  "config (g_csi_state (snd (buffer_init e sz w))) = config (g_csi_state w)"
  by (simp add: buffer_init_def split: prod.splits)

lemma buffer_deinit_config:
  "config (g_csi_state (buffer_deinit w)) = config (g_csi_state w)"
  by (simp add: buffer_deinit_def split: prod.splits)

lemma buffer_init_enabled:
  "enabled (g_csi_state (snd (buffer_init e sz w))) = enabled (g_csi_state w)"
  by (simp add: buffer_init_def split: prod.splits)

lemma wifi_csi_enable_no_mem:
  assumes "\<not> enabled (g_csi_state w)" "\<not> initialized (buffer (g_csi_state w))"
    "\<not> fst (buffer_init e (buffer_size (config (g_csi_state w))) w)"
  shows "wifi_csi_enable e w =
           (ESP_ERR_NO_MEM, snd (buffer_init e (buffer_size (config (g_csi_state w))) w))"
  using assms by (simp add: wifi_csi_enable_def case_prod_beta)

lemma wifi_csi_enable_run:
  assumes "\<not> enabled (g_csi_state w)"
    and "initialized (buffer (g_csi_state w)) \<or>
         fst (buffer_init e (buffer_size (config (g_csi_state w))) w)"
  shows "wifi_csi_enable e w =
     (let w0 = enable_base e w;
          p = enable_pre e w;
          c3 = Esp_wifi_set_promiscuous False;
          c4 = Esp_wifi_set_csi_config (enable_csi_config (target e) (config (g_csi_state w)));
          c5 = Esp_wifi_set_csi_rx_cb;
          c6 = Esp_wifi_set_csi True
      in if drv_ret e p c3 \<noteq> ESP_OK then (drv_ret e p c3, w0\<lparr>calls := p @ [c3]\<rparr>)
         else if drv_ret e (p @ [c3]) c4 \<noteq> ESP_OK
           then (drv_ret e (p @ [c3]) c4, w0\<lparr>calls := p @ [c3, c4]\<rparr>)
         else if drv_ret e (p @ [c3, c4]) c5 \<noteq> ESP_OK
           then (drv_ret e (p @ [c3, c4]) c5, w0\<lparr>calls := p @ [c3, c4, c5]\<rparr>)
         else if drv_ret e (p @ [c3, c4, c5]) c6 \<noteq> ESP_OK
           then (drv_ret e (p @ [c3, c4, c5]) c6, w0\<lparr>calls := p @ [c3, c4, c5, c6]\<rparr>)
         else (ESP_OK, w0\<lparr>calls := p @ [c3, c4, c5, c6],
                           g_csi_state := (g_csi_state w0)\<lparr>enabled := True\<rparr>\<rparr>))"
  using assms
proof (cases "initialized (buffer (g_csi_state w))")
  case True
  with assms(1) show ?thesis
    by (simp add: wifi_csi_enable_def enable_base_def enable_pre_def drv_def Let_def)
next
  case False
  with assms have ok: "fst (buffer_init e (buffer_size (config (g_csi_state w))) w)"
    by simp
  from assms(1) False ok show ?thesis
    by (simp add: wifi_csi_enable_def enable_base_def enable_pre_def drv_def Let_def
        case_prod_beta buffer_init_config)
qed

lemma wifi_csi_enable_keeps_config:
  "config (g_csi_state (snd (wifi_csi_enable e w))) = config (g_csi_state w)"
proof (cases "enabled (g_csi_state w)")
  case True
  then show ?thesis
    by (simp add: wifi_csi_enable_enabled)
next
  case off: False
  let ?init = "buffer_init e (buffer_size (config (g_csi_state w))) w"
  show ?thesis
  proof (cases "initialized (buffer (g_csi_state w)) \<or> fst ?init")
    case False
    with off have "wifi_csi_enable e w = (ESP_ERR_NO_MEM, snd ?init)"
      by (simp add: wifi_csi_enable_no_mem)
    then show ?thesis
      by (simp add: buffer_init_config)
  next
    case True
    have "config (g_csi_state (snd (wifi_csi_enable e w))) = config (g_csi_state (enable_base e w))"
      unfolding wifi_csi_enable_run [OF off True] by (simp add: Let_def)
    then show ?thesis
      by (simp add: enable_base_def buffer_init_config)
  qed
qed

lemma wifi_csi_config_stores:
  "config (g_csi_state (snd (wifi_csi_config e (Some c) w))) = c"
  by (simp add: wifi_csi_config_def Let_def case_prod_beta wifi_csi_enable_keeps_config
      buffer_init_config buffer_deinit_config wifi_csi_disable_keeps)

lemma ESP_ERR_NO_MEM_not_OK: "ESP_ERR_NO_MEM \<noteq> ESP_OK"
  by (simp add: ESP_ERR_NO_MEM_def ESP_OK_def)

lemma enable_base_enabled: "enabled (g_csi_state (enable_base e w)) = enabled (g_csi_state w)"
  by (simp add: enable_base_def buffer_init_enabled)

lemma wifi_csi_config_same_size_enabled:
  assumes "enabled (g_csi_state w)" "buffer_size c = size_buf (buffer (g_csi_state w))"
  shows "wifi_csi_config e (Some c) w = (ESP_OK, w\<lparr>g_csi_state := (g_csi_state w)\<lparr>config := c\<rparr>\<rparr>)"
  using assms by (simp add: wifi_csi_config_def Let_def wifi_csi_enable_def)

lemma queued_uninitialized: "\<not> initialized b \<Longrightarrow> queued b = []"
  by (simp add: queued_def wifi_csi_available_def split: option.splits)

lemma queued_after_init:
  "\<not> initialized b \<Longrightarrow> queued (fst (snd (csi_buffer_init e sz (b, log)))) = []"
  by (simp add: csi_buffer_init_def Let_def queued_def wifi_csi_available_def
      split: option.splits)

lemma csi_buffer_init_refused:
  assumes "malloc_ret e (if initialized b0 \<and> frames b0 \<noteq> None then log @ [Free] else log)
             (sizeof_csi_frame_t * sz) = None"
  shows "csi_buffer_init e sz (b0, log) =
           (False, b0\<lparr>frames := None\<rparr>,
            (if initialized b0 \<and> frames b0 \<noteq> None then log @ [Free] else log)
              @ [Malloc (sizeof_csi_frame_t * sz)])"
  using assms by (simp add: csi_buffer_init_def Let_def)

lemma buffer_init_first:
  assumes "\<not> initialized (buffer (g_csi_state w))"
  shows "buffer_init e sz w =
     (case malloc_ret e (calls w) (sizeof_csi_frame_t * sz) of
        None \<Rightarrow>
          (False, w\<lparr>g_csi_state := (g_csi_state w)\<lparr>buffer := (buffer (g_csi_state w))\<lparr>frames := None\<rparr>\<rparr>,
                    calls := calls w @ [Malloc (sizeof_csi_frame_t * sz)]\<rparr>)
      | Some junk \<Rightarrow>
          (True, w\<lparr>g_csi_state := (g_csi_state w)\<lparr>buffer := fresh_buffer (buffer (g_csi_state w)) sz junk\<rparr>,
                   calls := calls w @ [Malloc (sizeof_csi_frame_t * sz)]\<rparr>))"
  using assms
  by (simp add: buffer_init_def csi_buffer_init_def Let_def fresh_buffer_def split: option.splits)

lemma buffer_deinit_consistent:
  assumes "initialized (buffer (g_csi_state w)) \<longrightarrow> frames (buffer (g_csi_state w)) \<noteq> None"
  shows "\<not> initialized (buffer (g_csi_state (buffer_deinit w)))"
    and "enabled (g_csi_state (buffer_deinit w)) = enabled (g_csi_state w)"
  using assms by (auto simp: buffer_deinit_def csi_buffer_deinit_def)

lemma buffer_deinit_run:
  assumes "initialized (buffer (g_csi_state w)) \<longrightarrow> frames (buffer (g_csi_state w)) \<noteq> None"
  shows "buffer (g_csi_state (buffer_deinit w)) =
           (if initialized (buffer (g_csi_state w))
            then (buffer (g_csi_state w))\<lparr>frames := None, initialized := False\<rparr>
            else buffer (g_csi_state w))"
    and "calls (buffer_deinit w) =
           calls w @ (if initialized (buffer (g_csi_state w)) then [Free] else [])"
  using assms by (auto simp: buffer_deinit_def csi_buffer_deinit_def)

lemma clear_uninitialized:
  "\<not> initialized b \<Longrightarrow> b\<lparr>frames := None\<rparr> = b\<lparr>frames := None, initialized := False\<rparr>"
  by (cases b) simp

lemma enable_base_calls:
  "calls (enable_base e w) =
     (if initialized (buffer (g_csi_state w)) then calls w
      else calls w @ [Malloc (sizeof_csi_frame_t * buffer_size (config (g_csi_state w)))])"
  by (simp add: enable_base_def buffer_init_first split: option.splits)

lemma wifi_csi_enable_buffer:
  "buffer (g_csi_state (snd (wifi_csi_enable e w))) =
     (if enabled (g_csi_state w) \<or> initialized (buffer (g_csi_state w))
      then buffer (g_csi_state w)
      else fst (snd (csi_buffer_init e (buffer_size (config (g_csi_state w)))
                       (buffer (g_csi_state w), calls w))))"
proof (cases "enabled (g_csi_state w)")
  case True
  then show ?thesis
    by (simp add: wifi_csi_enable_enabled)
next
  case off: False
  let ?init = "buffer_init e (buffer_size (config (g_csi_state w))) w"
  have base: "buffer (g_csi_state (snd ?init)) =
      fst (snd (csi_buffer_init e (buffer_size (config (g_csi_state w)))
                  (buffer (g_csi_state w), calls w)))"
    by (simp add: buffer_init_def case_prod_beta)
  show ?thesis
  proof (cases "initialized (buffer (g_csi_state w)) \<or> fst ?init")
    case False
    with off have "wifi_csi_enable e w = (ESP_ERR_NO_MEM, snd ?init)"
      by (simp add: wifi_csi_enable_no_mem)
    with off False base show ?thesis
      by simp
  next
    case True
    have "buffer (g_csi_state (snd (wifi_csi_enable e w))) = buffer (g_csi_state (enable_base e w))"
      unfolding wifi_csi_enable_run [OF off True] by (simp add: Let_def)
    with off base show ?thesis
      by (simp add: enable_base_def)
  qed
qed

lemma wifi_csi_enable_queued:
  "queued (buffer (g_csi_state (snd (wifi_csi_enable e w)))) = queued (buffer (g_csi_state w))"
  by (simp add: wifi_csi_enable_buffer queued_after_init queued_uninitialized)

subsection \<open>Storage of an initialised buffer\<close>

lemma storage_ok_boot: "storage_ok (buffer g_csi_state_init)"
  by (simp add: storage_ok_def g_csi_state_init_def)

lemma storage_ok_init: "storage_ok b \<Longrightarrow> \<not> initialized b \<Longrightarrow>
   storage_ok (fst (snd (csi_buffer_init e sz (b, log))))"
  by (simp add: storage_ok_def csi_buffer_init_def Let_def split: option.splits)

lemma storage_ok_deinit: "storage_ok b \<Longrightarrow> storage_ok (fst (csi_buffer_deinit (b, log)))"
  by (auto simp: storage_ok_def csi_buffer_deinit_def)

lemma storage_ok_write:
  "storage_ok b \<Longrightarrow> csi_buffer_write b f = Inr (r, b') \<Longrightarrow> storage_ok b'"
  by (auto simp: storage_ok_def csi_buffer_write_def Let_def split: if_splits option.splits)

lemma storage_ok_read:
  "storage_ok b \<Longrightarrow> csi_buffer_read b = Inr (r, b') \<Longrightarrow> storage_ok b'"
  by (auto simp: storage_ok_def csi_buffer_read_def Let_def split: if_splits option.splits)

lemma storage_ok_disable:
  "storage_ok (buffer (g_csi_state (snd (wifi_csi_disable e w)))) = storage_ok (buffer (g_csi_state w))"
  by (simp add: wifi_csi_disable_keeps)

lemma storage_ok_enable:
  "storage_ok (buffer (g_csi_state w)) \<Longrightarrow>
   storage_ok (buffer (g_csi_state (snd (wifi_csi_enable e w))))"
  by (simp add: wifi_csi_enable_buffer storage_ok_init)

lemma storage_ok_config:
  "storage_ok (buffer (g_csi_state w)) \<Longrightarrow>
   storage_ok (buffer (g_csi_state (snd (wifi_csi_config e cfg w))))"
proof (cases cfg)
  case None
  then show "storage_ok (buffer (g_csi_state w)) \<Longrightarrow> ?thesis"
    by (simp add: wifi_csi_config_def)
next
  case (Some c)
  assume ok: "storage_ok (buffer (g_csi_state w))"
  let ?w1 = "w\<lparr>g_csi_state := (g_csi_state w)\<lparr>config := c\<rparr>\<rparr>"
  let ?w2 = "if enabled (g_csi_state ?w1) then snd (wifi_csi_disable e ?w1) else ?w1"
  let ?w3 = "buffer_deinit ?w2"
  let ?w4 = "snd (buffer_init e (buffer_size c) ?w3)"
  have 1: "storage_ok (buffer (g_csi_state ?w1))"
    using ok by simp
  have b2: "buffer (g_csi_state ?w2) = buffer (g_csi_state w)"
    by (simp add: wifi_csi_disable_keeps)
  with ok have cons: "initialized (buffer (g_csi_state ?w2)) \<longrightarrow>
      frames (buffer (g_csi_state ?w2)) \<noteq> None"
    by (simp only: storage_ok_def)
  have n3: "\<not> initialized (buffer (g_csi_state ?w3))"
    by (rule buffer_deinit_consistent [OF cons])
  then have 3: "storage_ok (buffer (g_csi_state ?w3))"
    by (simp add: storage_ok_def)
  have 4: "storage_ok (buffer (g_csi_state ?w4))"
    using storage_ok_init [OF 3 n3, of e "buffer_size c" "calls ?w3"]
    by (simp add: buffer_init_def case_prod_beta)
  have 5: "storage_ok (buffer (g_csi_state (snd (wifi_csi_enable e ?w4))))"
    by (rule storage_ok_enable [OF 4])
  have 6: "storage_ok (buffer (g_csi_state (snd (wifi_csi_enable e ?w1))))"
    by (rule storage_ok_enable [OF 1])
  show ?thesis
    using Some 1 4 5 6
    by (cases "enabled (g_csi_state w)")
      (simp_all add: wifi_csi_config_def Let_def case_prod_beta)
qed

subsection \<open>Growth of the call log\<close>

lemma log_growsI: "calls w' = calls w @ new \<Longrightarrow> applies_only k new \<Longrightarrow> log_grows k w w'"
  by (simp add: log_grows_def)

lemma log_grows_refl: "calls w' = calls w \<Longrightarrow> log_grows k w w'"
  by (simp add: log_grows_def applies_only_def)

lemma log_growsD:
  assumes "log_grows k w w'"
  obtains new where "calls w' = calls w @ new" "applies_only k new"
  using assms by (metis append_take_drop_id log_grows_def)

lemma log_grows_trans:
  assumes "log_grows k w w'" "log_grows k w' w''"
  shows "log_grows k w w''"
proof -
  from assms(1) obtain a where a: "calls w' = calls w @ a" "applies_only k a"
    by (rule log_growsD)
  from assms(2) obtain b where b: "calls w'' = calls w' @ b" "applies_only k b"
    by (rule log_growsD)
  from a b have "calls w'' = calls w @ (a @ b)"
    by simp
  moreover from a b have "applies_only k (a @ b)"
    by (simp add: applies_only_def)
  ultimately show ?thesis
    by (rule log_growsI)
qed

lemma buffer_init_log: "log_grows k w (snd (buffer_init e sz w))"
  by (rule log_growsI [where new = "drop (length (calls w)) (calls (snd (buffer_init e sz w)))"])
    (simp_all add: buffer_init_def csi_buffer_init_def Let_def applies_only_def
      split: option.splits)

lemma buffer_deinit_log: "log_grows k w (buffer_deinit w)"
  by (simp add: log_grows_def buffer_deinit_def csi_buffer_deinit_def applies_only_def)

lemma wifi_csi_disable_log: "log_grows k w (snd (wifi_csi_disable e w))"
  by (simp add: log_grows_def wifi_csi_disable_def drv_def applies_only_def)

lemma wifi_csi_enable_log:
  "log_grows (enable_csi_config (target e) (config (g_csi_state w))) w (snd (wifi_csi_enable e w))"
proof (cases "enabled (g_csi_state w)")
  case True
  then show ?thesis
    by (simp add: wifi_csi_enable_enabled log_grows_refl)
next
  case off: False
  let ?init = "buffer_init e (buffer_size (config (g_csi_state w))) w"
  let ?k = "enable_csi_config (target e) (config (g_csi_state w))"
  have base: "log_grows ?k w (enable_base e w)"
    by (simp add: enable_base_def buffer_init_log log_grows_refl)
  show ?thesis
  proof (cases "initialized (buffer (g_csi_state w)) \<or> fst ?init")
    case False
    with off have "wifi_csi_enable e w = (ESP_ERR_NO_MEM, snd ?init)"
      by (simp add: wifi_csi_enable_no_mem)
    then show ?thesis
      by (simp add: buffer_init_log)
  next
    case True
    have "log_grows ?k (enable_base e w) (snd (wifi_csi_enable e w))"
      unfolding wifi_csi_enable_run [OF off True]
      by (simp add: Let_def log_grows_def enable_pre_def applies_only_def)
    with base show ?thesis
      by (rule log_grows_trans)
  qed
qed

lemma wifi_csi_config_log:
  "log_grows (enable_csi_config (target e) c) w (snd (wifi_csi_config e (Some c) w))"
proof -
  let ?k = "enable_csi_config (target e) c"
  let ?w1 = "w\<lparr>g_csi_state := (g_csi_state w)\<lparr>config := c\<rparr>\<rparr>"
  let ?w2 = "if enabled (g_csi_state ?w1) then snd (wifi_csi_disable e ?w1) else ?w1"
  let ?w3 = "buffer_deinit ?w2"
  let ?w4 = "snd (buffer_init e (buffer_size c) ?w3)"
  have 1: "log_grows ?k w ?w1"
    by (simp add: log_grows_refl)
  have "log_grows ?k ?w1 ?w2"
    by (simp add: wifi_csi_disable_log log_grows_refl)
  with 1 have 2: "log_grows ?k w ?w2"
    by (rule log_grows_trans)
  have 3: "log_grows ?k w ?w3"
    by (rule log_grows_trans [OF 2 buffer_deinit_log])
  have 4: "log_grows ?k w ?w4"
    by (rule log_grows_trans [OF 3 buffer_init_log])
  have c4: "config (g_csi_state ?w4) = c"
    by (simp add: buffer_init_config buffer_deinit_config wifi_csi_disable_keeps)
  have "log_grows ?k ?w4 (snd (wifi_csi_enable e ?w4))"
    using wifi_csi_enable_log [of e ?w4] by (simp only: c4)
  with 4 have 5: "log_grows ?k w (snd (wifi_csi_enable e ?w4))"
    by (rule log_grows_trans)
  have "log_grows ?k ?w1 (snd (wifi_csi_enable e ?w1))"
    using wifi_csi_enable_log [of e ?w1] by simp
  with 1 have 6: "log_grows ?k w (snd (wifi_csi_enable e ?w1))"
    by (rule log_grows_trans)
  show ?thesis
    using 1 4 5 6
    by (cases "enabled (g_csi_state w)")
      (simp_all add: wifi_csi_config_def Let_def case_prod_beta)
qed

subsection \<open>Facts about the concrete states\<close>

lemma boot_init_4:
  "csi_buffer_init env_ok 4 (buffer g_csi_state_init, []) =
     (True, fresh_buffer (buffer g_csi_state_init) 4 (\<lambda>i. zero_frame),
      [Malloc (sizeof_csi_frame_t * 4)])"
  by (simp add: csi_buffer_init_def env_ok_def g_csi_state_init_def fresh_buffer_def Let_def)

lemma full_buffer_facts:
  "initialized full_buffer \<and> size_buf full_buffer \<noteq> 0 \<and>
   (head full_buffer + 1) mod size_buf full_buffer = tail full_buffer"
  by (simp add: full_buffer_def)

lemma empty_buffer_facts:
  "buf_ok empty_buffer \<and> head empty_buffer = tail empty_buffer \<and>
   length [test_frame 1, test_frame 2, test_frame 3, test_frame 4] = unat (size_buf empty_buffer)"
  by (simp add: empty_buffer_def buf_ok_def)

text \<open>
  For the record: called on a buffer that is marked initialised and holds storage,
  a failing allocation frees the old array, stores \<open>NULL\<close> and returns \<open>false\<close>
  with the flag, the size and the indices as they were. No caller in the module
  reaches this: each one tests the flag or runs \<open>csi_buffer_deinit\<close> first.
\<close>

lemma csi_buffer_init_reinit_no_mem:
  assumes "initialized b0" "frames b0 \<noteq> None"
    "malloc_ret e (log @ [Free]) (sizeof_csi_frame_t * sz) = None"
  shows "csi_buffer_init e sz (b0, log) =
           (False, b0\<lparr>frames := None\<rparr>, log @ [Free, Malloc (sizeof_csi_frame_t * sz)])"
  using assms by (simp add: csi_buffer_init_def Let_def)

section \<open>The claims\<close>

subsection \<open>C1: what \<open>csi_buffer_init\<close> allocates\<close>

text \<open>
  Claim C1, as the code has it. For a capacity argument \<open>c \<ge> 1\<close> whose byte count
  \<open>c * sizeof(csi_frame_t)\<close> fits the 32-bit \<open>size_t\<close> (every size the binding
  accepts does), a successful
  \<open>csi_buffer_init(c)\<close> leaves an array of exactly \<open>c\<close> slots (not \<open>c + 1\<close>),
  sets \<open>size\<close> to \<open>c\<close>, resets \<open>head\<close>, \<open>tail\<close> and \<open>dropped\<close> to zero and
  marks the buffer initialised. One slot is the gap between a full and an empty
  buffer, so \<open>c - 1\<close> frames are usable: any \<open>c - 1\<close> writes succeed, and the
  write after them is refused and counted.
\<close>

theorem csi_buffer_init_allocates_size_slots:
  assumes init: "csi_buffer_init e c (b0, log) = (True, b, log')"
    and fit: "unat c * unat sizeof_csi_frame_t < 2 ^ 32"
    and c1: "1 \<le> c"
  shows "map_option length (frames b) = Some (unat c) \<and>
         size_buf b = c \<and> head b = 0 \<and> tail b = 0 \<and> dropped b = 0 \<and> initialized b \<and>
         (\<forall>fs. length fs = unat c - 1 \<longrightarrow>
            (\<exists>b1. write_all b fs = Inr (replicate (unat c - 1) True, b1) \<and>
                  (\<forall>f. csi_buffer_write b1 f = Inr (False, b1\<lparr>dropped := 1\<rparr>))))"
proof -
  note f = csi_buffer_init_success [OF init]
  from c1 have nz: "c \<noteq> 0"
    by auto
  note ok = csi_buffer_init_buf_ok [OF init fit nz]
  have "\<exists>b1. write_all b fs = Inr (replicate (unat c - 1) True, b1) \<and>
             (\<forall>f. csi_buffer_write b1 f = Inr (False, b1\<lparr>dropped := 1\<rparr>))"
    if len: "length fs = unat c - 1" for fs
  proof -
    have "length (queued b) + length fs \<le> unat (size_buf b) - 1"
      using ok f len by simp
    from write_all_room [OF ok(1) this] obtain b1 where b1:
      "write_all b fs = Inr (replicate (length fs) True, b1)" "buf_ok b1"
      "queued b1 = queued b @ fs" "dropped b1 = dropped b" "size_buf b1 = size_buf b"
      by blast
    from b1 ok f len have "length (queued b1) = unat (size_buf b1) - 1"
      by simp
    with b1(2) have "(head b1 + 1) mod size_buf b1 = tail b1"
      by (simp add: full_iff)
    with b1(2) have "csi_buffer_write b1 g = Inr (False, b1\<lparr>dropped := dropped b1 + 1\<rparr>)" for g
      by (simp add: csi_buffer_write_full buf_ok_nat)
    with b1 f len show ?thesis
      by simp
  qed
  with f fit show ?thesis
    by (simp add: slots_of_size)
qed

text \<open>C1 at capacity 4 on a booted controller: four slots, three frames stored, the fourth refused.\<close>

theorem csi_buffer_init_allocates_size_slots_witness:
  "unat (4 :: 32 word) * unat sizeof_csi_frame_t < 2 ^ 32 \<and> (1 :: 32 word) \<le> 4 \<and>
   fst (csi_buffer_init env_ok 4 (buffer g_csi_state_init, [])) \<and>
   map_option length
     (frames (fst (snd (csi_buffer_init env_ok 4 (buffer g_csi_state_init, []))))) = Some 4 \<and>
   (\<exists>b1. write_all (fst (snd (csi_buffer_init env_ok 4 (buffer g_csi_state_init, []))))
            [test_frame 1, test_frame 2, test_frame 3] = Inr ([True, True, True], b1) \<and>
         csi_buffer_write b1 (test_frame 4) = Inr (False, b1\<lparr>dropped := 1\<rparr>))"
proof -
  have fit: "unat (4 :: 32 word) * unat sizeof_csi_frame_t < 2 ^ 32"
    by (rule binding_sizes_fit) simp
  have c1: "(1 :: 32 word) \<le> 4"
    by simp
  note t = csi_buffer_init_allocates_size_slots [OF boot_init_4 fit c1]
  let ?B = "fresh_buffer (buffer g_csi_state_init) 4 (\<lambda>i. zero_frame)"
  from t have "\<forall>fs. length fs = unat (4 :: 32 word) - 1 \<longrightarrow>
            (\<exists>b1. write_all ?B fs = Inr (replicate (unat (4 :: 32 word) - 1) True, b1) \<and>
                  (\<forall>f. csi_buffer_write b1 f = Inr (False, b1\<lparr>dropped := 1\<rparr>)))"
    by (elim conjE)
  from spec [OF this, of "[test_frame 1, test_frame 2, test_frame 3]"]
  have "\<exists>b1. write_all ?B [test_frame 1, test_frame 2, test_frame 3]
              = Inr (replicate (unat (4 :: 32 word) - 1) True, b1) \<and>
         (\<forall>f. csi_buffer_write b1 f = Inr (False, b1\<lparr>dropped := 1\<rparr>))"
    by simp
  then obtain b1 where "write_all ?B [test_frame 1, test_frame 2, test_frame 3]
              = Inr (replicate (unat (4 :: 32 word) - 1) True, b1)"
    "csi_buffer_write b1 (test_frame 4) = Inr (False, b1\<lparr>dropped := 1\<rparr>)"
    by blast
  then have "\<exists>b1. write_all (fresh_buffer (buffer g_csi_state_init) 4 (\<lambda>i. zero_frame))
            [test_frame 1, test_frame 2, test_frame 3] = Inr ([True, True, True], b1) \<and>
         csi_buffer_write b1 (test_frame 4) = Inr (False, b1\<lparr>dropped := 1\<rparr>)"
    by (simp add: numeral_3_eq_3)
  with t fit c1 show ?thesis
    by (simp add: boot_init_4)
qed

text \<open>
  C1 as the specification words it fails at capacity 4: the array has 4 slots, not
  5, and of four frames written the fourth is dropped. At capacity 25565282 the
  32-bit byte count wraps to 80 bytes and the array has no whole slot at all.
\<close>

theorem csi_buffer_init_size_plus_one_counterexample:
  "map_option length
     (frames (fst (snd (csi_buffer_init env_ok 4 (buffer g_csi_state_init, []))))) = Some 4 \<and>
   map_option length
     (frames (fst (snd (csi_buffer_init env_ok 4 (buffer g_csi_state_init, []))))) \<noteq> Some (4 + 1) \<and>
   map_sum id fst
     (write_all (fst (snd (csi_buffer_init env_ok 4 (buffer g_csi_state_init, []))))
        [test_frame 1, test_frame 2, test_frame 3, test_frame 4])
     = Inr [True, True, True, False] \<and>
   map_option length
     (frames (fst (snd (csi_buffer_init env_ok 25565282 (buffer g_csi_state_init, []))))) = Some 0"
  by (simp add: csi_buffer_init_def env_ok_def g_csi_state_init_def sizeof_csi_frame_t_def
      csi_buffer_write_def Let_def)

subsection \<open>C2: a full buffer drops the newest frame\<close>

text \<open>
  Claim C2. On an initialised buffer of non-zero size with
  \<open>(head + 1) mod size = tail\<close>, \<open>csi_buffer_write\<close> returns \<open>false\<close> and changes
  nothing but \<open>dropped\<close>, which grows by one (in 32-bit arithmetic): head, tail,
  size and every slot stay as they were, so no stored frame is evicted. Writing
  \<open>N\<close> frames into an empty buffer \<open>b0\<close> of \<open>N\<close> slots therefore succeeds
  \<open>N - 1\<close> times and fails once, on the last frame; afterwards \<open>dropped\<close> is one
  higher, \<open>available\<close> is \<open>N - 1\<close>, and \<open>N - 1\<close> reads return the first
  \<open>N - 1\<close> frames in order, after which a read finds nothing.
\<close>

theorem csi_buffer_write_drop_newest:
  "(initialized b \<and> size_buf b \<noteq> 0 \<and> (head b + 1) mod size_buf b = tail b \<longrightarrow>
      csi_buffer_write b f = Inr (False, b\<lparr>dropped := dropped b + 1\<rparr>)) \<and>
   (buf_ok b0 \<and> head b0 = tail b0 \<and> length fs = unat (size_buf b0) \<longrightarrow>
      (\<exists>b' b''.
          write_all b0 fs = Inr (replicate (length fs - 1) True @ [False], b') \<and>
          dropped b' = dropped b0 + 1 \<and>
          wifi_csi_available b' = size_buf b0 - 1 \<and>
          read_n (length fs - 1) b' = Inr (map Some (butlast fs), b'') \<and>
          csi_buffer_read b'' = Inr (None, b'')))"
proof (intro conjI impI)
  assume "initialized b \<and> size_buf b \<noteq> 0 \<and> (head b + 1) mod size_buf b = tail b"
  then show "csi_buffer_write b f = Inr (False, b\<lparr>dropped := dropped b + 1\<rparr>)"
    by (simp add: csi_buffer_write_full)
next
  assume a: "buf_ok b0 \<and> head b0 = tail b0 \<and> length fs = unat (size_buf b0)"
  then obtain b' where b':
    "write_all b0 fs = Inr (replicate (length fs - 1) True @ [False], b')" "buf_ok b'"
    "queued b' = butlast fs" "dropped b' = dropped b0 + 1" "size_buf b' = size_buf b0"
    using fill_then_drop [of b0 fs] by blast
  have "unat (wifi_csi_available b') = unat (size_buf b0) - 1"
    using a b' by (simp add: available_queued)
  also have "\<dots> = unat (size_buf b0 - 1)"
    using a by (simp add: unat_minus_one buf_ok_nat)
  finally have av: "wifi_csi_available b' = size_buf b0 - 1"
    by (simp add: word_unat_eq_iff)
  have "length fs - 1 \<le> length (queued b')"
    using b' by simp
  from read_n_queued [OF b'(2) this] obtain b'' where b'':
    "read_n (length fs - 1) b' = Inr (map Some (take (length fs - 1) (queued b')), b'')"
    "buf_ok b''" "queued b'' = drop (length fs - 1) (queued b')"
    by blast
  from b''(3) b'(3) have "queued b'' = []"
    by simp
  with b''(2) have "csi_buffer_read b'' = Inr (None, b'')"
    by (simp add: csi_buffer_read_none)
  moreover from b''(1) b'(3) have "read_n (length fs - 1) b' = Inr (map Some (butlast fs), b'')"
    by simp
  ultimately show "\<exists>b' b''.
          write_all b0 fs = Inr (replicate (length fs - 1) True @ [False], b') \<and>
          dropped b' = dropped b0 + 1 \<and>
          wifi_csi_available b' = size_buf b0 - 1 \<and>
          read_n (length fs - 1) b' = Inr (map Some (butlast fs), b'') \<and>
          csi_buffer_read b'' = Inr (None, b'')"
    using b' av by blast
qed

text \<open>
  C2 on a full four-slot buffer, and on an empty four-slot buffer whose indices
  stand on the last slot, so that the writes wrap around.
\<close>

theorem csi_buffer_write_drop_newest_witness:
  "(initialized full_buffer \<and> size_buf full_buffer \<noteq> 0 \<and>
    (head full_buffer + 1) mod size_buf full_buffer = tail full_buffer) \<and>
   csi_buffer_write full_buffer (test_frame 4)
     = Inr (False, full_buffer\<lparr>dropped := dropped full_buffer + 1\<rparr>) \<and>
   (buf_ok empty_buffer \<and> head empty_buffer = tail empty_buffer \<and>
    length [test_frame 1, test_frame 2, test_frame 3, test_frame 4]
      = unat (size_buf empty_buffer)) \<and>
   (\<exists>b' b''.
       write_all empty_buffer [test_frame 1, test_frame 2, test_frame 3, test_frame 4]
         = Inr ([True, True, True, False], b') \<and>
       dropped b' = 1 \<and>
       wifi_csi_available b' = 3 \<and>
       read_n 3 b' = Inr ([Some (test_frame 1), Some (test_frame 2), Some (test_frame 3)], b'') \<and>
       csi_buffer_read b'' = Inr (None, b''))"
proof -
  note t = csi_buffer_write_drop_newest
    [of full_buffer "test_frame 4" empty_buffer
        "[test_frame 1, test_frame 2, test_frame 3, test_frame 4]"]
  from t full_buffer_facts have 1: "csi_buffer_write full_buffer (test_frame 4)
     = Inr (False, full_buffer\<lparr>dropped := dropped full_buffer + 1\<rparr>)"
    by blast
  from t empty_buffer_facts have "\<exists>b' b''.
       write_all empty_buffer [test_frame 1, test_frame 2, test_frame 3, test_frame 4]
         = Inr (replicate (length [test_frame 1, test_frame 2, test_frame 3, test_frame 4] - 1) True
                  @ [False], b') \<and>
       dropped b' = dropped empty_buffer + 1 \<and>
       wifi_csi_available b' = size_buf empty_buffer - 1 \<and>
       read_n (length [test_frame 1, test_frame 2, test_frame 3, test_frame 4] - 1) b'
         = Inr (map Some (butlast [test_frame 1, test_frame 2, test_frame 3, test_frame 4]), b'') \<and>
       csi_buffer_read b'' = Inr (None, b'')"
    by blast
  then have 2: "\<exists>b' b''.
       write_all empty_buffer [test_frame 1, test_frame 2, test_frame 3, test_frame 4]
         = Inr ([True, True, True, False], b') \<and>
       dropped b' = 1 \<and>
       wifi_csi_available b' = 3 \<and>
       read_n 3 b' = Inr ([Some (test_frame 1), Some (test_frame 2), Some (test_frame 3)], b'') \<and>
       csi_buffer_read b'' = Inr (None, b'')"
    by (simp add: empty_buffer_def numeral_3_eq_3)
  from 1 2 full_buffer_facts empty_buffer_facts show ?thesis
    by blast
qed

subsection \<open>C3: first in, first out\<close>

text \<open>
  Claim C3. Let \<open>csi_buffer_init\<close> have succeeded for \<open>N\<close> slots (the byte count
  fitting 32 bits, as it does for every size the binding accepts). Then for every
  list of \<open>K \<le> N - 1\<close> frames, the \<open>K\<close> writes all return \<open>true\<close>, the \<open>K\<close>
  reads that follow return exactly those frames in the order written, and the
  buffer is empty again: \<open>head = tail\<close>, and one more read returns \<open>false\<close> and
  leaves the buffer as it is.
\<close>

theorem csi_buffer_fifo_roundtrip:
  assumes init: "csi_buffer_init e sz (b0, log) = (True, b, log')"
    and fit: "unat sz * unat sizeof_csi_frame_t < 2 ^ 32"
    and k: "length fs \<le> unat sz - 1"
  shows "\<exists>b1 b2. write_all b fs = Inr (replicate (length fs) True, b1) \<and>
                 read_n (length fs) b1 = Inr (map Some fs, b2) \<and>
                 head b2 = tail b2 \<and> csi_buffer_read b2 = Inr (None, b2)"
proof (cases "sz = 0")
  case True
  with k have "fs = []"
    by simp
  moreover from csi_buffer_init_success [OF init]
  have "head b = tail b" "csi_buffer_read b = Inr (None, b)"
    by (simp_all add: csi_buffer_read_def csi_buffer_is_empty_def)
  ultimately show ?thesis
    by simp
next
  case False
  note ok = csi_buffer_init_buf_ok [OF init fit False]
  have sz: "size_buf b = sz"
    using csi_buffer_init_success [OF init] by simp
  have "length (queued b) + length fs \<le> unat (size_buf b) - 1"
    using ok k sz by simp
  from write_all_room [OF ok(1) this] obtain b1 where b1:
    "write_all b fs = Inr (replicate (length fs) True, b1)" "buf_ok b1"
    "queued b1 = queued b @ fs"
    by blast
  have "length fs \<le> length (queued b1)"
    using b1 ok by simp
  from read_n_queued [OF b1(2) this] obtain b2 where b2:
    "read_n (length fs) b1 = Inr (map Some (take (length fs) (queued b1)), b2)" "buf_ok b2"
    "queued b2 = drop (length fs) (queued b1)"
    by blast
  from b2(3) b1(3) ok have "queued b2 = []"
    by simp
  with b2(2) have "csi_buffer_read b2 = Inr (None, b2)" "head b2 = tail b2"
    by (simp_all add: csi_buffer_read_none)
  moreover from b2(1) b1(3) ok have "read_n (length fs) b1 = Inr (map Some fs, b2)"
    by simp
  ultimately show ?thesis
    using b1(1) by blast
qed

text \<open>C3 for three frames through a fresh buffer of four slots.\<close>

theorem csi_buffer_fifo_roundtrip_witness:
  "fst (csi_buffer_init env_ok 4 (buffer g_csi_state_init, [])) \<and>
   unat (4 :: 32 word) * unat sizeof_csi_frame_t < 2 ^ 32 \<and>
   length [test_frame 1, test_frame 2, test_frame 3] \<le> unat (4 :: 32 word) - 1 \<and>
   (\<exists>b1 b2.
       write_all (fst (snd (csi_buffer_init env_ok 4 (buffer g_csi_state_init, []))))
         [test_frame 1, test_frame 2, test_frame 3] = Inr ([True, True, True], b1) \<and>
       read_n 3 b1 = Inr ([Some (test_frame 1), Some (test_frame 2), Some (test_frame 3)], b2) \<and>
       head b2 = tail b2 \<and> csi_buffer_read b2 = Inr (None, b2))"
proof -
  have fit: "unat (4 :: 32 word) * unat sizeof_csi_frame_t < 2 ^ 32"
    by (rule binding_sizes_fit) simp
  have k: "length [test_frame 1, test_frame 2, test_frame 3] \<le> unat (4 :: 32 word) - 1"
    by simp
  from csi_buffer_fifo_roundtrip [OF boot_init_4 fit k] fit k show ?thesis
    by (simp add: boot_init_4 numeral_3_eq_3)
qed

subsection \<open>C4: reconfiguration with the size unchanged, while enabled\<close>

text \<open>
  Claim C4 says that \<open>wifi_csi_config\<close> with an unchanged \<open>buffer_size\<close> on an
  enabled controller applies the new configuration to the driver again. The source
  means to (its comment reads ``If already enabled, update configuration''), but the
  call it makes is \<open>wifi_csi_enable\<close>, which returns \<open>ESP_OK\<close> at once when the
  flag is set. Evaluated on an enabled controller with two unread frames and a new
  configuration that turns \<open>lltf_en\<close> off: the result is \<open>ESP_OK\<close>, the stored
  record is replaced, the buffer is untouched, and no driver call is made although
  the driver configuration the new record stands for differs from the old one.
\<close>

theorem wifi_csi_config_same_size_no_driver_call:
  "wifi_csi_config env_ok (Some cfg_no_lltf) live_world =
     (ESP_OK, live_world\<lparr>g_csi_state := (g_csi_state live_world)\<lparr>config := cfg_no_lltf\<rparr>\<rparr>) \<and>
   calls (snd (wifi_csi_config env_ok (Some cfg_no_lltf) live_world)) = calls live_world \<and>
   enable_csi_config (target env_ok) cfg_no_lltf
     \<noteq> enable_csi_config (target env_ok) (config (g_csi_state live_world))"
proof -
  have en: "enabled (g_csi_state live_world)"
    by (simp add: live_world_def)
  have sz: "buffer_size cfg_no_lltf = size_buf (buffer (g_csi_state live_world))"
    by (simp add: live_world_def live_buffer_def cfg_no_lltf_def)
  have "enable_csi_config (target env_ok) cfg_no_lltf
     \<noteq> enable_csi_config (target env_ok) (config (g_csi_state live_world))"
    by (simp add: enable_csi_config_def env_ok_def cfg_no_lltf_def live_world_def
        g_csi_state_init_def)
  with wifi_csi_config_same_size_enabled [OF en sz, of env_ok] show ?thesis
    by simp
qed

subsection \<open>C5: allocation failure\<close>

text \<open>
  Claim C5, as the code has it. In each part the hypothesis is the answer
  \<open>NULL\<close> to the one \<open>malloc\<close> call the function makes, at the log that stands
  when it is made. (1) \<open>csi_buffer_init\<close> then returns \<open>false\<close>, whatever the
  buffer it is given. (2) On a buffer not marked initialised it stores \<open>NULL\<close> in
  \<open>frames\<close> and changes nothing else, so the flag stays clear.
  (3) \<open>wifi_csi_enable\<close> on a disabled controller without a buffer returns
  \<open>ESP_ERR_NO_MEM\<close> without a driver call; configuration, flag and the other
  buffer fields are as before. (4) \<open>wifi_csi_config\<close> with a changed size, on a
  buffer that holds storage when marked initialised, returns \<open>ESP_ERR_NO_MEM\<close>
  only after it has stored the new configuration, tried to stop capture and
  released the old buffer: the prior state is not kept, the buffer is left
  uninitialised with \<open>NULL\<close> storage, and the flag is set exactly if it was set
  and the driver refused to stop.
\<close>

theorem alloc_failure_outcomes:
  "(malloc_ret e (if initialized b0 \<and> frames b0 \<noteq> None then log @ [Free] else log)
      (sizeof_csi_frame_t * sz) = None \<longrightarrow>
      fst (csi_buffer_init e sz (b0, log)) = False) \<and>
   (\<not> initialized b0 \<and> malloc_ret e log (sizeof_csi_frame_t * sz) = None \<longrightarrow>
      csi_buffer_init e sz (b0, log) =
        (False, b0\<lparr>frames := None\<rparr>, log @ [Malloc (sizeof_csi_frame_t * sz)])) \<and>
   (\<not> enabled (g_csi_state w) \<and> \<not> initialized (buffer (g_csi_state w)) \<and>
    malloc_ret e (calls w) (sizeof_csi_frame_t * buffer_size (config (g_csi_state w))) = None \<longrightarrow>
      wifi_csi_enable e w =
        (ESP_ERR_NO_MEM,
         w\<lparr>g_csi_state :=
              (g_csi_state w)\<lparr>buffer := (buffer (g_csi_state w))\<lparr>frames := None\<rparr>\<rparr>,
            calls := calls w @
              [Malloc (sizeof_csi_frame_t * buffer_size (config (g_csi_state w)))]\<rparr>)) \<and>
   (buffer_size c \<noteq> size_buf (buffer (g_csi_state v)) \<and>
    (initialized (buffer (g_csi_state v)) \<longrightarrow> frames (buffer (g_csi_state v)) \<noteq> None) \<and>
    malloc_ret e
      (calls v @ (if enabled (g_csi_state v) then [Esp_wifi_set_csi False] else [])
               @ (if initialized (buffer (g_csi_state v)) then [Free] else []))
      (sizeof_csi_frame_t * buffer_size c) = None \<longrightarrow>
      (case wifi_csi_config e (Some c) v of (ret, v') \<Rightarrow>
         ret = ESP_ERR_NO_MEM \<and>
         config (g_csi_state v') = c \<and>
         buffer (g_csi_state v') =
           (buffer (g_csi_state v))\<lparr>frames := None, initialized := False\<rparr> \<and>
         (enabled (g_csi_state v') \<longleftrightarrow>
            enabled (g_csi_state v) \<and>
            drv_ret e (calls v) (Esp_wifi_set_csi False) \<noteq> ESP_OK) \<and>
         calls v' =
           calls v @ (if enabled (g_csi_state v) then [Esp_wifi_set_csi False] else [])
                   @ (if initialized (buffer (g_csi_state v)) then [Free] else [])
                   @ [Malloc (sizeof_csi_frame_t * buffer_size c)]))"
proof (intro conjI impI)
  assume "malloc_ret e (if initialized b0 \<and> frames b0 \<noteq> None then log @ [Free] else log)
      (sizeof_csi_frame_t * sz) = None"
  then show "fst (csi_buffer_init e sz (b0, log)) = False"
    by (simp only: csi_buffer_init_refused fst_conv)
next
  assume "\<not> initialized b0 \<and> malloc_ret e log (sizeof_csi_frame_t * sz) = None"
  then show "csi_buffer_init e sz (b0, log) =
        (False, b0\<lparr>frames := None\<rparr>, log @ [Malloc (sizeof_csi_frame_t * sz)])"
    using csi_buffer_init_refused [of e b0 log sz] by simp
next
  assume a: "\<not> enabled (g_csi_state w) \<and> \<not> initialized (buffer (g_csi_state w)) \<and>
    malloc_ret e (calls w) (sizeof_csi_frame_t * buffer_size (config (g_csi_state w))) = None"
  then show "wifi_csi_enable e w =
        (ESP_ERR_NO_MEM,
         w\<lparr>g_csi_state :=
              (g_csi_state w)\<lparr>buffer := (buffer (g_csi_state w))\<lparr>frames := None\<rparr>\<rparr>,
            calls := calls w @
              [Malloc (sizeof_csi_frame_t * buffer_size (config (g_csi_state w)))]\<rparr>)"
    by (simp add: wifi_csi_enable_no_mem buffer_init_first)
next
  assume a: "buffer_size c \<noteq> size_buf (buffer (g_csi_state v)) \<and>
    (initialized (buffer (g_csi_state v)) \<longrightarrow> frames (buffer (g_csi_state v)) \<noteq> None) \<and>
    malloc_ret e
      (calls v @ (if enabled (g_csi_state v) then [Esp_wifi_set_csi False] else [])
               @ (if initialized (buffer (g_csi_state v)) then [Free] else []))
      (sizeof_csi_frame_t * buffer_size c) = None"
  let ?v1 = "v\<lparr>g_csi_state := (g_csi_state v)\<lparr>config := c\<rparr>\<rparr>"
  let ?v2 = "if enabled (g_csi_state v) then snd (wifi_csi_disable e ?v1) else ?v1"
  let ?v3 = "buffer_deinit ?v2"
  let ?log = "calls v @ (if enabled (g_csi_state v) then [Esp_wifi_set_csi False] else [])
               @ (if initialized (buffer (g_csi_state v)) then [Free] else [])"
  have b2: "buffer (g_csi_state ?v2) = buffer (g_csi_state v)"
    by (simp add: wifi_csi_disable_keeps)
  have c2: "config (g_csi_state ?v2) = c"
    by (simp add: wifi_csi_disable_keeps)
  have e2: "enabled (g_csi_state ?v2) \<longleftrightarrow>
      enabled (g_csi_state v) \<and> drv_ret e (calls v) (Esp_wifi_set_csi False) \<noteq> ESP_OK"
    by (simp add: wifi_csi_disable_enabled)
  have l2: "calls ?v2 = calls v @ (if enabled (g_csi_state v) then [Esp_wifi_set_csi False] else [])"
    by (simp add: wifi_csi_disable_enabled)
  from a b2 have cons: "initialized (buffer (g_csi_state ?v2)) \<longrightarrow>
      frames (buffer (g_csi_state ?v2)) \<noteq> None"
    by (simp only:) simp
  have c3: "config (g_csi_state ?v3) = c"
    by (simp only: buffer_deinit_config c2)
  have e3: "enabled (g_csi_state ?v3) = enabled (g_csi_state ?v2)"
    by (simp only: buffer_deinit_consistent [OF cons])
  have n3: "\<not> initialized (buffer (g_csi_state ?v3))"
    by (rule buffer_deinit_consistent [OF cons])
  have b3: "(buffer (g_csi_state ?v3))\<lparr>frames := None\<rparr> =
      (buffer (g_csi_state v))\<lparr>frames := None, initialized := False\<rparr>"
  proof (cases "initialized (buffer (g_csi_state v))")
    case True
    then show ?thesis
      unfolding buffer_deinit_run(1) [OF cons] b2 by simp
  next
    case False
    then show ?thesis
      unfolding buffer_deinit_run(1) [OF cons] b2
      by (simp only: if_False) (rule clear_uninitialized)
  qed
  have l3: "calls ?v3 = ?log"
    unfolding buffer_deinit_run(2) [OF cons] b2 l2 by simp
  from a l3 have m3: "malloc_ret e (calls ?v3) (sizeof_csi_frame_t * buffer_size c) = None"
    by (simp only:)
  note i = buffer_init_first [OF n3, of e "buffer_size c", unfolded m3 option.case]
  have "wifi_csi_config e (Some c) v = (ESP_ERR_NO_MEM, snd (buffer_init e (buffer_size c) ?v3))"
    using a i by (simp add: wifi_csi_config_def Let_def case_prod_beta)
  then show "case wifi_csi_config e (Some c) v of (ret, v') \<Rightarrow>
         ret = ESP_ERR_NO_MEM \<and>
         config (g_csi_state v') = c \<and>
         buffer (g_csi_state v') =
           (buffer (g_csi_state v))\<lparr>frames := None, initialized := False\<rparr> \<and>
         (enabled (g_csi_state v') \<longleftrightarrow>
            enabled (g_csi_state v) \<and>
            drv_ret e (calls v) (Esp_wifi_set_csi False) \<noteq> ESP_OK) \<and>
         calls v' =
           calls v @ (if enabled (g_csi_state v) then [Esp_wifi_set_csi False] else [])
                   @ (if initialized (buffer (g_csi_state v)) then [Free] else [])
                   @ [Malloc (sizeof_csi_frame_t * buffer_size c)]"
    using c3 e3 e2 b3 l3 by (simp add: i)
qed


text \<open>
  C5 with an allocator that refuses a byte count once: on the buffer of the booted
  controller, on a buffer that holds storage, on the booted controller and on the
  enabled one.
\<close>

theorem alloc_failure_outcomes_witness:
  "malloc_ret env_no_mem_once [] (sizeof_csi_frame_t * 8) = None \<and>
   malloc_ret env_no_mem_once [Malloc (sizeof_csi_frame_t * 8)] (sizeof_csi_frame_t * 8) \<noteq> None \<and>
   \<not> initialized (buffer g_csi_state_init) \<and>
   csi_buffer_init env_no_mem_once 8 (buffer g_csi_state_init, []) =
     (False, buffer g_csi_state_init, [Malloc (sizeof_csi_frame_t * 8)]) \<and>
   initialized live_buffer \<and> frames live_buffer \<noteq> None \<and>
   malloc_ret env_no_mem_once [Free] (sizeof_csi_frame_t * 8) = None \<and>
   fst (csi_buffer_init env_no_mem_once 8 (live_buffer, [])) = False \<and>
   wifi_csi_enable env_no_mem_once
       (boot_world\<lparr>g_csi_state := (g_csi_state boot_world)\<lparr>config := cfg_size_8\<rparr>\<rparr>) =
     (ESP_ERR_NO_MEM,
      \<lparr>g_csi_state = g_csi_state_init\<lparr>config := cfg_size_8\<rparr>,
       calls = [Malloc (sizeof_csi_frame_t * 8)]\<rparr>) \<and>
   malloc_ret env_no_mem_once [Esp_wifi_set_csi False, Free] (sizeof_csi_frame_t * 8) = None \<and>
   wifi_csi_config env_no_mem_once (Some cfg_size_8) live_world =
     (ESP_ERR_NO_MEM,
      \<lparr>g_csi_state =
         \<lparr>buffer = live_buffer\<lparr>frames := None, initialized := False\<rparr>,
          config = cfg_size_8, enabled = False\<rparr>,
       calls = [Esp_wifi_set_csi False, Free, Malloc (sizeof_csi_frame_t * 8)]\<rparr>)"
proof -
  let ?w = "boot_world\<lparr>g_csi_state := (g_csi_state boot_world)\<lparr>config := cfg_size_8\<rparr>\<rparr>"
  have m: "malloc_ret env_no_mem_once [] (sizeof_csi_frame_t * 8) = None"
    "malloc_ret env_no_mem_once [Malloc (sizeof_csi_frame_t * 8)] (sizeof_csi_frame_t * 8) \<noteq> None"
    "malloc_ret env_no_mem_once [Free] (sizeof_csi_frame_t * 8) = None"
    "malloc_ret env_no_mem_once [Esp_wifi_set_csi False, Free] (sizeof_csi_frame_t * 8) = None"
    by (simp_all add: env_no_mem_once_def)
  have ok: "drv_ret env_no_mem_once l k = ESP_OK" for l k
    by (simp add: env_no_mem_once_def)
  have b: "\<not> initialized (buffer g_csi_state_init)" "frames (buffer g_csi_state_init) = None"
    "(buffer g_csi_state_init)\<lparr>frames := None\<rparr> = buffer g_csi_state_init"
    by (simp_all add: g_csi_state_init_def)
  have l: "initialized live_buffer" "frames live_buffer \<noteq> None"
    by (simp_all add: live_buffer_def)
  have w: "\<not> enabled (g_csi_state ?w)" "\<not> initialized (buffer (g_csi_state ?w))"
    "buffer_size (config (g_csi_state ?w)) = 8" "calls ?w = []"
    "?w\<lparr>g_csi_state := (g_csi_state ?w)\<lparr>buffer := (buffer (g_csi_state ?w))\<lparr>frames := None\<rparr>\<rparr>,
         calls := [Malloc (sizeof_csi_frame_t * 8)]\<rparr> =
     \<lparr>g_csi_state = g_csi_state_init\<lparr>config := cfg_size_8\<rparr>,
       calls = [Malloc (sizeof_csi_frame_t * 8)]\<rparr>"
    by (simp_all add: boot_world_def g_csi_state_init_def cfg_size_8_def)
  have v: "buffer_size cfg_size_8 = 8" "size_buf (buffer (g_csi_state live_world)) = 4"
    "initialized (buffer (g_csi_state live_world))"
    "frames (buffer (g_csi_state live_world)) \<noteq> None"
    "enabled (g_csi_state live_world)" "calls live_world = []"
    "buffer (g_csi_state live_world) = live_buffer"
    by (simp_all add: cfg_size_8_def live_world_def live_buffer_def)
  note t = alloc_failure_outcomes
    [where e = env_no_mem_once and ?b0.0 = "buffer g_csi_state_init" and log = "[]" and sz = 8
       and w = ?w and c = cfg_size_8 and v = live_world]
  note u = alloc_failure_outcomes
    [where e = env_no_mem_once and ?b0.0 = live_buffer and log = "[]" and sz = 8,
     THEN conjunct1]
  from t m b have 1: "csi_buffer_init env_no_mem_once 8 (buffer g_csi_state_init, []) =
     (False, buffer g_csi_state_init, [Malloc (sizeof_csi_frame_t * 8)])"
    by simp
  from u m l have 2: "fst (csi_buffer_init env_no_mem_once 8 (live_buffer, [])) = False"
    by simp
  from t m w have 3: "wifi_csi_enable env_no_mem_once ?w =
     (ESP_ERR_NO_MEM,
      \<lparr>g_csi_state = g_csi_state_init\<lparr>config := cfg_size_8\<rparr>,
       calls = [Malloc (sizeof_csi_frame_t * 8)]\<rparr>)"
    by simp
  from t m v ok have 4: "case wifi_csi_config env_no_mem_once (Some cfg_size_8) live_world of
      (ret, v') \<Rightarrow>
         ret = ESP_ERR_NO_MEM \<and>
         config (g_csi_state v') = cfg_size_8 \<and>
         buffer (g_csi_state v') = live_buffer\<lparr>frames := None, initialized := False\<rparr> \<and>
         \<not> enabled (g_csi_state v') \<and>
         calls v' = [Esp_wifi_set_csi False, Free, Malloc (sizeof_csi_frame_t * 8)]"
    by simp
  have 5: "wifi_csi_config env_no_mem_once (Some cfg_size_8) live_world =
     (ESP_ERR_NO_MEM,
      \<lparr>g_csi_state =
         \<lparr>buffer = live_buffer\<lparr>frames := None, initialized := False\<rparr>,
          config = cfg_size_8, enabled = False\<rparr>,
       calls = [Esp_wifi_set_csi False, Free, Malloc (sizeof_csi_frame_t * 8)]\<rparr>)"
    using 4 by (cases "wifi_csi_config env_no_mem_once (Some cfg_size_8) live_world") auto
  from m b l 1 2 3 5 show ?thesis
    by simp
qed

text \<open>
  C5 as the specification words it fails for the controller: on an enabled
  controller holding two unread frames, a resize whose allocation fails returns
  \<open>ESP_ERR_NO_MEM\<close> and leaves it disabled and without a buffer.
\<close>

theorem alloc_failure_prior_state_counterexample:
  "fst (wifi_csi_config env_no_mem (Some cfg_size_8) live_world) = ESP_ERR_NO_MEM \<and>
   queued (buffer (g_csi_state live_world)) = [test_frame 1, test_frame 2] \<and>
   enabled (g_csi_state live_world) \<and>
   initialized (buffer (g_csi_state live_world)) \<and>
   \<not> initialized (buffer (g_csi_state
        (snd (wifi_csi_config env_no_mem (Some cfg_size_8) live_world)))) \<and>
   frames (buffer (g_csi_state
        (snd (wifi_csi_config env_no_mem (Some cfg_size_8) live_world)))) = None \<and>
   \<not> enabled (g_csi_state (snd (wifi_csi_config env_no_mem (Some cfg_size_8) live_world))) \<and>
   g_csi_state (snd (wifi_csi_config env_no_mem (Some cfg_size_8) live_world))
     \<noteq> g_csi_state live_world"
proof -
  have run: "wifi_csi_config env_no_mem (Some cfg_size_8) live_world =
      (ESP_ERR_NO_MEM,
       \<lparr>g_csi_state =
          \<lparr>buffer = live_buffer\<lparr>frames := None, initialized := False\<rparr>,
           config = cfg_size_8, enabled = False\<rparr>,
        calls = [Esp_wifi_set_csi False, Free, Malloc (sizeof_csi_frame_t * 8)]\<rparr>)"
    by (simp add: wifi_csi_config_def Let_def env_no_mem_def cfg_size_8_def live_world_def
        live_buffer_def wifi_csi_disable_def drv_def buffer_deinit_def csi_buffer_deinit_def
        buffer_init_def csi_buffer_init_def g_csi_state_init_def)
  have u: "[0..<2] = [0, Suc 0]"
    by (simp add: upt_conv_Cons)
  have q: "queued (buffer (g_csi_state live_world)) = [test_frame 1, test_frame 2]"
    by (simp add: queued_def wifi_csi_available_def live_world_def live_buffer_def u)
  from run q show ?thesis
    by (simp add: live_world_def live_buffer_def)
qed

subsection \<open>C6: \<open>wifi_csi_enable\<close> enables completely or not at all\<close>

text \<open>
  Claim C6. The claim's three steps are, in the source, \<open>esp_wifi_set_csi_config\<close>
  (the call that hands the stored configuration to the driver),
  \<open>esp_wifi_set_csi_rx_cb\<close> and \<open>esp_wifi_set_csi(true)\<close>;
  \<open>esp_wifi_set_promiscuous(false)\<close> just before them is checked in the same way.
  These four are \<open>steps\<close> below, and \<open>answer i\<close> is the driver's answer to the
  \<open>i\<close>-th of them when the ones before it have been made.

  Already enabled, \<open>wifi_csi_enable\<close> returns \<open>ESP_OK\<close> and changes nothing.
  On a disabled controller whose buffer is missing and cannot be allocated, it
  returns \<open>ESP_ERR_NO_MEM\<close> with no driver call made. Otherwise, with \<open>w0\<close> the
  state once the buffer is there, it calls \<open>esp_wifi_set_protocol\<close> and
  \<open>esp_wifi_set_bandwidth\<close>, whose answers it only logs, and then the four steps
  in order. If step \<open>n\<close> is the first that the driver refuses, the result is the
  driver's code for that step, the log ends with that step, and the state is
  \<open>w0\<close> with the flag still clear. If the driver accepts all four, the result is
  \<open>ESP_OK\<close> and the flag is set. So the flag is set afterwards, and the result is
  \<open>ESP_OK\<close>, exactly if every step was accepted.
\<close>

theorem wifi_csi_enable_all_or_nothing:
  "(enabled (g_csi_state w) \<longrightarrow> wifi_csi_enable e w = (ESP_OK, w)) \<and>
   (\<not> enabled (g_csi_state w) \<longrightarrow>
      (let bytes = sizeof_csi_frame_t * buffer_size (config (g_csi_state w));
           w0 = enable_base e w;
           p = calls w0 @
                 [Esp_wifi_set_protocol (enable_protocols (target e)), Esp_wifi_set_bandwidth];
           steps = enable_steps (target e) (config (g_csi_state w));
           answer = (\<lambda>i. drv_ret e (p @ take i steps) (steps ! i))
       in (\<not> initialized (buffer (g_csi_state w)) \<and> malloc_ret e (calls w) bytes = None \<longrightarrow>
             wifi_csi_enable e w =
               (ESP_ERR_NO_MEM,
                w\<lparr>g_csi_state :=
                     (g_csi_state w)\<lparr>buffer := (buffer (g_csi_state w))\<lparr>frames := None\<rparr>\<rparr>,
                   calls := calls w @ [Malloc bytes]\<rparr>)) \<and>
          (initialized (buffer (g_csi_state w)) \<or> malloc_ret e (calls w) bytes \<noteq> None \<longrightarrow>
             \<not> enabled (g_csi_state w0) \<and>
             w0 = (if initialized (buffer (g_csi_state w)) then w
                   else w\<lparr>g_csi_state :=
                            (g_csi_state w)\<lparr>buffer :=
                               fresh_buffer (buffer (g_csi_state w))
                                 (buffer_size (config (g_csi_state w)))
                                 (the (malloc_ret e (calls w) bytes))\<rparr>,
                          calls := calls w @ [Malloc bytes]\<rparr>) \<and>
             (\<forall>n<length steps.
                 (\<forall>i<n. answer i = ESP_OK) \<and> answer n \<noteq> ESP_OK \<longrightarrow>
                   wifi_csi_enable e w = (answer n, w0\<lparr>calls := p @ take (Suc n) steps\<rparr>)) \<and>
             ((\<forall>i<length steps. answer i = ESP_OK) \<longrightarrow>
                 wifi_csi_enable e w =
                   (ESP_OK, w0\<lparr>calls := p @ steps,
                               g_csi_state := (g_csi_state w0)\<lparr>enabled := True\<rparr>\<rparr>)) \<and>
             (enabled (g_csi_state (snd (wifi_csi_enable e w)))
                \<longleftrightarrow> (\<forall>i<length steps. answer i = ESP_OK)) \<and>
             (fst (wifi_csi_enable e w) = ESP_OK
                \<longleftrightarrow> (\<forall>i<length steps. answer i = ESP_OK)))))"
proof (intro conjI impI)
  assume "enabled (g_csi_state w)"
  then show "wifi_csi_enable e w = (ESP_OK, w)"
    by (rule wifi_csi_enable_enabled)
next
  assume off: "\<not> enabled (g_csi_state w)"
  let ?sz = "buffer_size (config (g_csi_state w))"
  let ?bytes = "sizeof_csi_frame_t * ?sz"
  let ?w0 = "enable_base e w"
  let ?p = "calls ?w0 @ [Esp_wifi_set_protocol (enable_protocols (target e)), Esp_wifi_set_bandwidth]"
  let ?c3 = "Esp_wifi_set_promiscuous False"
  let ?c4 = "Esp_wifi_set_csi_config (enable_csi_config (target e) (config (g_csi_state w)))"
  let ?c5 = "Esp_wifi_set_csi_rx_cb"
  let ?c6 = "Esp_wifi_set_csi True"
  let ?steps = "[?c3, ?c4, ?c5, ?c6]"
  let ?answer = "\<lambda>i. drv_ret e (?p @ take i ?steps) (?steps ! i)"
  have no_mem: "wifi_csi_enable e w =
               (ESP_ERR_NO_MEM,
                w\<lparr>g_csi_state :=
                     (g_csi_state w)\<lparr>buffer := (buffer (g_csi_state w))\<lparr>frames := None\<rparr>\<rparr>,
                   calls := calls w @ [Malloc ?bytes]\<rparr>)"
    if "\<not> initialized (buffer (g_csi_state w)) \<and> malloc_ret e (calls w) ?bytes = None"
    using that off by (simp add: wifi_csi_enable_no_mem buffer_init_first)
  have run: "\<not> enabled (g_csi_state ?w0) \<and>
             ?w0 = (if initialized (buffer (g_csi_state w)) then w
                   else w\<lparr>g_csi_state :=
                            (g_csi_state w)\<lparr>buffer :=
                               fresh_buffer (buffer (g_csi_state w))
                                 (buffer_size (config (g_csi_state w)))
                                 (the (malloc_ret e (calls w) ?bytes))\<rparr>,
                          calls := calls w @ [Malloc ?bytes]\<rparr>) \<and>
             (\<forall>n<length ?steps.
                 (\<forall>i<n. ?answer i = ESP_OK) \<and> ?answer n \<noteq> ESP_OK \<longrightarrow>
                   wifi_csi_enable e w = (?answer n, ?w0\<lparr>calls := ?p @ take (Suc n) ?steps\<rparr>)) \<and>
             ((\<forall>i<length ?steps. ?answer i = ESP_OK) \<longrightarrow>
                 wifi_csi_enable e w =
                   (ESP_OK, ?w0\<lparr>calls := ?p @ ?steps,
                               g_csi_state := (g_csi_state ?w0)\<lparr>enabled := True\<rparr>\<rparr>)) \<and>
             (enabled (g_csi_state (snd (wifi_csi_enable e w)))
                \<longleftrightarrow> (\<forall>i<length ?steps. ?answer i = ESP_OK)) \<and>
             (fst (wifi_csi_enable e w) = ESP_OK
                \<longleftrightarrow> (\<forall>i<length ?steps. ?answer i = ESP_OK))"
    if ready: "initialized (buffer (g_csi_state w)) \<or> malloc_ret e (calls w) ?bytes \<noteq> None"
  proof -
    from ready have ok: "initialized (buffer (g_csi_state w)) \<or> fst (buffer_init e ?sz w)"
    proof (cases "initialized (buffer (g_csi_state w))")
      case True
      then show ?thesis by simp
    next
      case False
      with ready show ?thesis
        by (auto simp: buffer_init_first [OF False])
    qed
    note r = wifi_csi_enable_run [OF off ok]
    have e0: "\<not> enabled (g_csi_state ?w0)"
      using off by (simp add: enable_base_enabled)
    have len: "length ?steps = 4"
      by simp
    have step: "wifi_csi_enable e w = (?answer n, ?w0\<lparr>calls := ?p @ take (Suc n) ?steps\<rparr>)"
      if n: "n < 4" and before: "\<And>i. i < n \<Longrightarrow> ?answer i = ESP_OK"
        and bad: "?answer n \<noteq> ESP_OK" for n
    proof -
      from n consider "n = 0" | "n = Suc 0" | "n = Suc (Suc 0)" | "n = Suc (Suc (Suc 0))"
        by linarith
      then show ?thesis
      proof cases
        case 1
        with bad r show ?thesis
          by (simp add: Let_def enable_pre_def)
      next
        case 2
        with before [of 0] have "?answer 0 = ESP_OK"
          by simp
        with 2 bad r show ?thesis
          by (simp add: Let_def enable_pre_def)
      next
        case 3
        with before [of 0] before [of "Suc 0"]
        have "?answer 0 = ESP_OK" "?answer (Suc 0) = ESP_OK"
          by simp_all
        with 3 bad r show ?thesis
          by (simp add: Let_def enable_pre_def)
      next
        case 4
        with before [of 0] before [of "Suc 0"] before [of "Suc (Suc 0)"]
        have "?answer 0 = ESP_OK" "?answer (Suc 0) = ESP_OK" "?answer (Suc (Suc 0)) = ESP_OK"
          by simp_all
        with 4 bad r show ?thesis
          by (simp add: Let_def enable_pre_def)
      qed
    qed
    have fin: "wifi_csi_enable e w =
        (ESP_OK, ?w0\<lparr>calls := ?p @ ?steps,
                     g_csi_state := (g_csi_state ?w0)\<lparr>enabled := True\<rparr>\<rparr>)"
      if all: "\<And>i. i < 4 \<Longrightarrow> ?answer i = ESP_OK"
    proof -
      from all [of 0] all [of "Suc 0"] all [of "Suc (Suc 0)"] all [of "Suc (Suc (Suc 0))"]
      have "?answer 0 = ESP_OK" "?answer (Suc 0) = ESP_OK" "?answer (Suc (Suc 0)) = ESP_OK"
        "?answer (Suc (Suc (Suc 0))) = ESP_OK"
        by simp_all
      with r show ?thesis
        by (simp add: Let_def enable_pre_def)
    qed
    have refused: "\<not> enabled (g_csi_state (snd (wifi_csi_enable e w))) \<and>
        fst (wifi_csi_enable e w) \<noteq> ESP_OK"
      if "\<not> (\<forall>i<4. ?answer i = ESP_OK)"
    proof -
      from that have "\<exists>n. n < 4 \<and> ?answer n \<noteq> ESP_OK"
        by blast
      then obtain n where n: "n < 4" "?answer n \<noteq> ESP_OK"
        and least: "\<forall>m<n. \<not> (m < 4 \<and> ?answer m \<noteq> ESP_OK)"
        unfolding exists_least_iff [of "\<lambda>n. n < 4 \<and> ?answer n \<noteq> ESP_OK"] by blast
      have "?answer i = ESP_OK" if "i < n" for i
        using least that n(1) by auto
      from step [OF n(1) this n(2)] n(2) e0 show ?thesis
        by simp
    qed
    have both: "enabled (g_csi_state (snd (wifi_csi_enable e w))) \<and>
        fst (wifi_csi_enable e w) = ESP_OK"
      if "\<forall>i<4. ?answer i = ESP_OK"
      using fin that by simp
    have E: "?w0 = (if initialized (buffer (g_csi_state w)) then w
                   else w\<lparr>g_csi_state :=
                            (g_csi_state w)\<lparr>buffer :=
                               fresh_buffer (buffer (g_csi_state w))
                                 (buffer_size (config (g_csi_state w)))
                                 (the (malloc_ret e (calls w) ?bytes))\<rparr>,
                          calls := calls w @ [Malloc ?bytes]\<rparr>)"
      using ready by (auto simp: enable_base_def buffer_init_first)
    have A: "\<forall>n<length ?steps.
                 (\<forall>i<n. ?answer i = ESP_OK) \<and> ?answer n \<noteq> ESP_OK \<longrightarrow>
                   wifi_csi_enable e w = (?answer n, ?w0\<lparr>calls := ?p @ take (Suc n) ?steps\<rparr>)"
      unfolding len using step by blast
    have B: "(\<forall>i<length ?steps. ?answer i = ESP_OK) \<longrightarrow>
                 wifi_csi_enable e w =
                   (ESP_OK, ?w0\<lparr>calls := ?p @ ?steps,
                               g_csi_state := (g_csi_state ?w0)\<lparr>enabled := True\<rparr>\<rparr>)"
      unfolding len using fin by blast
    have C: "enabled (g_csi_state (snd (wifi_csi_enable e w)))
                \<longleftrightarrow> (\<forall>i<length ?steps. ?answer i = ESP_OK)"
      unfolding len using refused both by blast
    have D: "fst (wifi_csi_enable e w) = ESP_OK
                \<longleftrightarrow> (\<forall>i<length ?steps. ?answer i = ESP_OK)"
      unfolding len using refused both by blast
    from e0 E A B C D show ?thesis
      by (intro conjI)
  qed
  show "let bytes = sizeof_csi_frame_t * buffer_size (config (g_csi_state w));
           w0 = enable_base e w;
           p = calls w0 @
                 [Esp_wifi_set_protocol (enable_protocols (target e)), Esp_wifi_set_bandwidth];
           steps = enable_steps (target e) (config (g_csi_state w));
           answer = (\<lambda>i. drv_ret e (p @ take i steps) (steps ! i))
       in (\<not> initialized (buffer (g_csi_state w)) \<and> malloc_ret e (calls w) bytes = None \<longrightarrow>
             wifi_csi_enable e w =
               (ESP_ERR_NO_MEM,
                w\<lparr>g_csi_state :=
                     (g_csi_state w)\<lparr>buffer := (buffer (g_csi_state w))\<lparr>frames := None\<rparr>\<rparr>,
                   calls := calls w @ [Malloc bytes]\<rparr>)) \<and>
          (initialized (buffer (g_csi_state w)) \<or> malloc_ret e (calls w) bytes \<noteq> None \<longrightarrow>
             \<not> enabled (g_csi_state w0) \<and>
             w0 = (if initialized (buffer (g_csi_state w)) then w
                   else w\<lparr>g_csi_state :=
                            (g_csi_state w)\<lparr>buffer :=
                               fresh_buffer (buffer (g_csi_state w))
                                 (buffer_size (config (g_csi_state w)))
                                 (the (malloc_ret e (calls w) bytes))\<rparr>,
                          calls := calls w @ [Malloc bytes]\<rparr>) \<and>
             (\<forall>n<length steps.
                 (\<forall>i<n. answer i = ESP_OK) \<and> answer n \<noteq> ESP_OK \<longrightarrow>
                   wifi_csi_enable e w = (answer n, w0\<lparr>calls := p @ take (Suc n) steps\<rparr>)) \<and>
             ((\<forall>i<length steps. answer i = ESP_OK) \<longrightarrow>
                 wifi_csi_enable e w =
                   (ESP_OK, w0\<lparr>calls := p @ steps,
                               g_csi_state := (g_csi_state w0)\<lparr>enabled := True\<rparr>\<rparr>)) \<and>
             (enabled (g_csi_state (snd (wifi_csi_enable e w)))
                \<longleftrightarrow> (\<forall>i<length steps. answer i = ESP_OK)) \<and>
             (fst (wifi_csi_enable e w) = ESP_OK
                \<longleftrightarrow> (\<forall>i<length steps. answer i = ESP_OK)))"
    unfolding Let_def enable_steps_def using no_mem run by blast
qed


text \<open>
  C6 on an enabled controller (nothing happens), and on a disabled one: when the
  driver refuses the first \<open>esp_wifi_set_csi(true)\<close> its code comes back, no call
  follows and the flag stays clear; when it refuses only \<open>esp_wifi_set_protocol\<close>
  and \<open>esp_wifi_set_bandwidth\<close> the controller is enabled all the same. On the
  booted controller: when the buffer cannot be allocated no driver call is made;
  when it can, the allocation comes first and the controller is enabled.
\<close>

theorem wifi_csi_enable_all_or_nothing_witness:
  "enabled (g_csi_state live_world) \<and>
   wifi_csi_enable env_ok live_world = (ESP_OK, live_world) \<and>
   \<not> enabled (g_csi_state idle_world) \<and>
   initialized (buffer (g_csi_state idle_world)) \<and>
   wifi_csi_enable env_start_fails_once idle_world =
     (0x3001,
      idle_world\<lparr>calls :=
        [Esp_wifi_set_protocol [WIFI_PROTOCOL_11B, WIFI_PROTOCOL_11G, WIFI_PROTOCOL_11N],
         Esp_wifi_set_bandwidth, Esp_wifi_set_promiscuous False,
         Esp_wifi_set_csi_config (enable_csi_config ESP32 (config (g_csi_state idle_world))),
         Esp_wifi_set_csi_rx_cb, Esp_wifi_set_csi True]\<rparr>) \<and>
   \<not> enabled (g_csi_state (snd (wifi_csi_enable env_start_fails_once idle_world))) \<and>
   wifi_csi_enable env_protocol_fails idle_world =
     (ESP_OK,
      idle_world\<lparr>calls :=
        [Esp_wifi_set_protocol [WIFI_PROTOCOL_11B, WIFI_PROTOCOL_11G, WIFI_PROTOCOL_11N],
         Esp_wifi_set_bandwidth, Esp_wifi_set_promiscuous False,
         Esp_wifi_set_csi_config (enable_csi_config ESP32 (config (g_csi_state idle_world))),
         Esp_wifi_set_csi_rx_cb, Esp_wifi_set_csi True],
        g_csi_state := (g_csi_state idle_world)\<lparr>enabled := True\<rparr>\<rparr>) \<and>
   \<not> enabled (g_csi_state boot_world) \<and>
   \<not> initialized (buffer (g_csi_state boot_world)) \<and>
   malloc_ret env_no_mem (calls boot_world)
     (sizeof_csi_frame_t * buffer_size (config (g_csi_state boot_world))) = None \<and>
   fst (wifi_csi_enable env_no_mem boot_world) = ESP_ERR_NO_MEM \<and>
   calls (snd (wifi_csi_enable env_no_mem boot_world)) = [Malloc (sizeof_csi_frame_t * 128)] \<and>
   malloc_ret env_ok (calls boot_world)
     (sizeof_csi_frame_t * buffer_size (config (g_csi_state boot_world))) \<noteq> None \<and>
   fst (wifi_csi_enable env_ok boot_world) = ESP_OK \<and>
   enabled (g_csi_state (snd (wifi_csi_enable env_ok boot_world))) \<and>
   calls (snd (wifi_csi_enable env_ok boot_world)) =
     [Malloc (sizeof_csi_frame_t * 128),
      Esp_wifi_set_protocol [WIFI_PROTOCOL_11B, WIFI_PROTOCOL_11G, WIFI_PROTOCOL_11N],
      Esp_wifi_set_bandwidth, Esp_wifi_set_promiscuous False,
      Esp_wifi_set_csi_config (enable_csi_config ESP32 (config g_csi_state_init)),
      Esp_wifi_set_csi_rx_cb, Esp_wifi_set_csi True]"
proof -
  have on: "enabled (g_csi_state live_world)"
    by (simp add: live_world_def)
  have off: "\<not> enabled (g_csi_state idle_world)"
    and ini: "initialized (buffer (g_csi_state idle_world))"
    and base: "enable_base e idle_world = idle_world"
    and log: "calls idle_world = []" for e
    by (simp_all add: idle_world_def live_world_def live_buffer_def enable_base_def)
  have boot: "\<not> enabled (g_csi_state boot_world)"
    "\<not> initialized (buffer (g_csi_state boot_world))"
    "malloc_ret env_no_mem (calls boot_world)
       (sizeof_csi_frame_t * buffer_size (config (g_csi_state boot_world))) = None"
    "calls boot_world = []"
    "buffer_size (config (g_csi_state boot_world)) = 128"
    by (simp_all add: boot_world_def g_csi_state_init_def env_no_mem_def
        CSI_DEFAULT_BUFFER_SIZE_def)
  have tgt: "target env_start_fails_once = ESP32" "target env_protocol_fails = ESP32"
    by (simp_all add: env_start_fails_once_def env_protocol_fails_def)
  have prot: "enable_protocols ESP32 = [WIFI_PROTOCOL_11B, WIFI_PROTOCOL_11G, WIFI_PROTOCOL_11N]"
    by (simp add: enable_protocols_def)
  have once: "drv_ret env_start_fails_once l c =
      (if c = Esp_wifi_set_csi True \<and> Esp_wifi_set_csi True \<notin> set l then 0x3001 else ESP_OK)"
    for l c
    by (simp add: env_start_fails_once_def)
  have su: "drv_ret env_protocol_fails l (Esp_wifi_set_promiscuous b) = ESP_OK"
    "drv_ret env_protocol_fails l (Esp_wifi_set_csi_config k) = ESP_OK"
    "drv_ret env_protocol_fails l Esp_wifi_set_csi_rx_cb = ESP_OK"
    "drv_ret env_protocol_fails l (Esp_wifi_set_csi b) = ESP_OK"
    "drv_ret env_protocol_fails l (Esp_wifi_set_protocol ps) \<noteq> ESP_OK"
    "drv_ret env_protocol_fails l Esp_wifi_set_bandwidth \<noteq> ESP_OK" for l b k ps
    by (simp_all add: env_protocol_fails_def ESP_OK_def)
  from wifi_csi_enable_all_or_nothing [of live_world env_ok] on
  have 1: "wifi_csi_enable env_ok live_world = (ESP_OK, live_world)"
    by simp
  note t = wifi_csi_enable_all_or_nothing [of idle_world, unfolded Let_def,
      THEN conjunct2, THEN mp, OF off, THEN conjunct2, THEN mp, OF disjI1, OF ini]
  note refusal = t [of env_start_fails_once, THEN conjunct2, THEN conjunct2, THEN conjunct1,
      THEN spec, of "Suc (Suc (Suc 0))"]
  note success = t [of env_protocol_fails, THEN conjunct2, THEN conjunct2, THEN conjunct2,
      THEN conjunct1]
  from refusal have 2: "wifi_csi_enable env_start_fails_once idle_world =
     (0x3001,
      idle_world\<lparr>calls :=
        [Esp_wifi_set_protocol [WIFI_PROTOCOL_11B, WIFI_PROTOCOL_11G, WIFI_PROTOCOL_11N],
         Esp_wifi_set_bandwidth, Esp_wifi_set_promiscuous False,
         Esp_wifi_set_csi_config (enable_csi_config ESP32 (config (g_csi_state idle_world))),
         Esp_wifi_set_csi_rx_cb, Esp_wifi_set_csi True]\<rparr>)"
    by (simp add: base log tgt prot once enable_steps_def less_Suc_eq ESP_OK_def)
  from success have 3: "wifi_csi_enable env_protocol_fails idle_world =
     (ESP_OK,
      idle_world\<lparr>calls :=
        [Esp_wifi_set_protocol [WIFI_PROTOCOL_11B, WIFI_PROTOCOL_11G, WIFI_PROTOCOL_11N],
         Esp_wifi_set_bandwidth, Esp_wifi_set_promiscuous False,
         Esp_wifi_set_csi_config (enable_csi_config ESP32 (config (g_csi_state idle_world))),
         Esp_wifi_set_csi_rx_cb, Esp_wifi_set_csi True],
        g_csi_state := (g_csi_state idle_world)\<lparr>enabled := True\<rparr>\<rparr>)"
    by (simp add: base log tgt prot su enable_steps_def less_Suc_eq nth_Cons')
  from wifi_csi_enable_all_or_nothing [of boot_world env_no_mem, unfolded Let_def,
      THEN conjunct2, THEN mp, OF boot(1), THEN conjunct1, THEN mp, OF conjI, OF boot(2) boot(3)]
  have 4: "fst (wifi_csi_enable env_no_mem boot_world) = ESP_ERR_NO_MEM \<and>
      calls (snd (wifi_csi_enable env_no_mem boot_world)) = [Malloc (sizeof_csi_frame_t * 128)]"
    by (simp add: boot)
  have alloc: "malloc_ret env_ok (calls boot_world)
      (sizeof_csi_frame_t * buffer_size (config (g_csi_state boot_world))) \<noteq> None"
    and accept: "drv_ret env_ok l k = ESP_OK" and tgt_ok: "target env_ok = ESP32" for l k
    by (simp_all add: env_ok_def)
  have cfg: "config (g_csi_state boot_world) = config g_csi_state_init"
    "buffer_size (config g_csi_state_init) = 128"
    by (simp_all add: boot_world_def g_csi_state_init_def CSI_DEFAULT_BUFFER_SIZE_def)
  note fresh = wifi_csi_enable_all_or_nothing [of boot_world env_ok, unfolded Let_def,
      THEN conjunct2, THEN mp, OF boot(1), THEN conjunct2, THEN mp, OF disjI2, OF alloc]
  from fresh [THEN conjunct2, THEN conjunct1]
    fresh [THEN conjunct2, THEN conjunct2, THEN conjunct2, THEN conjunct1]
  have 5: "fst (wifi_csi_enable env_ok boot_world) = ESP_OK \<and>
      enabled (g_csi_state (snd (wifi_csi_enable env_ok boot_world))) \<and>
      calls (snd (wifi_csi_enable env_ok boot_world)) =
        [Malloc (sizeof_csi_frame_t * 128),
         Esp_wifi_set_protocol [WIFI_PROTOCOL_11B, WIFI_PROTOCOL_11G, WIFI_PROTOCOL_11N],
         Esp_wifi_set_bandwidth, Esp_wifi_set_promiscuous False,
         Esp_wifi_set_csi_config (enable_csi_config ESP32 (config g_csi_state_init)),
         Esp_wifi_set_csi_rx_cb, Esp_wifi_set_csi True]"
    by (simp add: boot accept tgt_ok prot cfg enable_steps_def)
  from on off ini boot alloc 1 2 3 4 5 show ?thesis
    by (simp add: idle_world_def)
qed

subsection \<open>C7: \<open>wifi_csi_disable\<close> leaves the buffer alone\<close>

text \<open>
  Claim C7, as the code has it. Already disabled, \<open>wifi_csi_disable\<close> returns
  \<open>ESP_OK\<close> and changes nothing. Otherwise it makes one driver call,
  \<open>esp_wifi_set_csi(false)\<close>, and returns its answer. When the driver answers
  \<open>ESP_OK\<close> the flag is cleared; on any other answer the source returns before
  touching the flag, which stays set. In both cases the buffer (storage, head,
  tail, dropped, size) and the configuration are unchanged.
  \<open>wifi_csi_disable\<close> followed by \<open>wifi_csi_enable\<close> leaves an initialised
  buffer exactly as it was, and in every case the unread frames are the same.
\<close>

theorem wifi_csi_disable_leaves_buffer:
  "(\<not> enabled (g_csi_state w) \<longrightarrow> wifi_csi_disable e w = (ESP_OK, w)) \<and>
   (enabled (g_csi_state w) \<longrightarrow>
      (case wifi_csi_disable e w of (ret, w') \<Rightarrow>
         ret = drv_ret e (calls w) (Esp_wifi_set_csi False) \<and>
         calls w' = calls w @ [Esp_wifi_set_csi False] \<and>
         buffer (g_csi_state w') = buffer (g_csi_state w) \<and>
         config (g_csi_state w') = config (g_csi_state w) \<and>
         (enabled (g_csi_state w') \<longleftrightarrow> ret \<noteq> ESP_OK))) \<and>
   (initialized (buffer (g_csi_state w)) \<longrightarrow>
      buffer (g_csi_state (snd (wifi_csi_enable e (snd (wifi_csi_disable e w)))))
        = buffer (g_csi_state w)) \<and>
   queued (buffer (g_csi_state (snd (wifi_csi_enable e (snd (wifi_csi_disable e w))))))
     = queued (buffer (g_csi_state w))"
proof (intro conjI impI)
  assume "\<not> enabled (g_csi_state w)"
  then show "wifi_csi_disable e w = (ESP_OK, w)"
    by (rule wifi_csi_disable_disabled)
next
  assume "enabled (g_csi_state w)"
  from wifi_csi_disable_enabled [OF this, of e]
  show "case wifi_csi_disable e w of (ret, w') \<Rightarrow>
         ret = drv_ret e (calls w) (Esp_wifi_set_csi False) \<and>
         calls w' = calls w @ [Esp_wifi_set_csi False] \<and>
         buffer (g_csi_state w') = buffer (g_csi_state w) \<and>
         config (g_csi_state w') = config (g_csi_state w) \<and>
         (enabled (g_csi_state w') \<longleftrightarrow> ret \<noteq> ESP_OK)"
    by (simp add: case_prod_beta)
next
  assume "initialized (buffer (g_csi_state w))"
  then show "buffer (g_csi_state (snd (wifi_csi_enable e (snd (wifi_csi_disable e w)))))
        = buffer (g_csi_state w)"
    by (simp add: wifi_csi_enable_keeps_live_buffer wifi_csi_disable_keeps)
next
  show "queued (buffer (g_csi_state (snd (wifi_csi_enable e (snd (wifi_csi_disable e w))))))
     = queued (buffer (g_csi_state w))"
    by (simp add: wifi_csi_enable_queued wifi_csi_disable_keeps)
qed

text \<open>
  C7 on a disabled controller (nothing happens), and on the enabled controller with
  two unread frames, with a driver that stops and with one that refuses.
\<close>

theorem wifi_csi_disable_leaves_buffer_witness:
  "\<not> enabled (g_csi_state idle_world) \<and>
   wifi_csi_disable env_ok idle_world = (ESP_OK, idle_world) \<and>
   enabled (g_csi_state live_world) \<and> initialized (buffer (g_csi_state live_world)) \<and>
   fst (wifi_csi_disable env_ok live_world) = ESP_OK \<and>
   \<not> enabled (g_csi_state (snd (wifi_csi_disable env_ok live_world))) \<and>
   buffer (g_csi_state (snd (wifi_csi_disable env_ok live_world))) = live_buffer \<and>
   calls (snd (wifi_csi_disable env_ok live_world)) = [Esp_wifi_set_csi False] \<and>
   buffer (g_csi_state (snd (wifi_csi_enable env_ok (snd (wifi_csi_disable env_ok live_world)))))
     = live_buffer \<and>
   enabled (g_csi_state (snd (wifi_csi_enable env_ok (snd (wifi_csi_disable env_ok live_world))))) \<and>
   fst (wifi_csi_disable env_stop_fails live_world) = 0x3001 \<and>
   enabled (g_csi_state (snd (wifi_csi_disable env_stop_fails live_world))) \<and>
   buffer (g_csi_state (snd (wifi_csi_disable env_stop_fails live_world))) = live_buffer"
proof -
  have off: "\<not> enabled (g_csi_state idle_world)"
    by (simp add: idle_world_def)
  have en: "enabled (g_csi_state live_world)" "initialized (buffer (g_csi_state live_world))"
    "buffer (g_csi_state live_world) = live_buffer" "calls live_world = []"
    by (simp_all add: live_world_def live_buffer_def)
  have ok: "drv_ret env_ok l c = ESP_OK" for l c
    by (simp add: env_ok_def)
  have no: "drv_ret env_stop_fails l (Esp_wifi_set_csi False) = 0x3001" for l
    by (simp add: env_stop_fails_def)
  have ne: "(0x3001 :: esp_err_t) \<noteq> ESP_OK"
    by (simp add: ESP_OK_def)
  from wifi_csi_disable_leaves_buffer [of idle_world env_ok] off
  have 0: "wifi_csi_disable env_ok idle_world = (ESP_OK, idle_world)"
    by simp
  note t = wifi_csi_disable_leaves_buffer [of live_world env_ok]
  from t en(1) have 1: "case wifi_csi_disable env_ok live_world of (ret, w') \<Rightarrow>
         ret = drv_ret env_ok (calls live_world) (Esp_wifi_set_csi False) \<and>
         calls w' = calls live_world @ [Esp_wifi_set_csi False] \<and>
         buffer (g_csi_state w') = buffer (g_csi_state live_world) \<and>
         config (g_csi_state w') = config (g_csi_state live_world) \<and>
         (enabled (g_csi_state w') \<longleftrightarrow> ret \<noteq> ESP_OK)"
    by simp
  from t en(2) have 2:
    "buffer (g_csi_state (snd (wifi_csi_enable env_ok (snd (wifi_csi_disable env_ok live_world)))))
        = buffer (g_csi_state live_world)"
    by simp
  have 3: "enabled (g_csi_state (snd (wifi_csi_enable env_ok
              (snd (wifi_csi_disable env_ok live_world)))))"
    by (simp add: wifi_csi_disable_def wifi_csi_enable_def drv_def Let_def env_ok_def
        live_world_def live_buffer_def)
  from wifi_csi_disable_leaves_buffer [of live_world env_stop_fails] en(1)
  have 4: "case wifi_csi_disable env_stop_fails live_world of (ret, w') \<Rightarrow>
         ret = drv_ret env_stop_fails (calls live_world) (Esp_wifi_set_csi False) \<and>
         calls w' = calls live_world @ [Esp_wifi_set_csi False] \<and>
         buffer (g_csi_state w') = buffer (g_csi_state live_world) \<and>
         config (g_csi_state w') = config (g_csi_state live_world) \<and>
         (enabled (g_csi_state w') \<longleftrightarrow> ret \<noteq> ESP_OK)"
    by simp
  from 0 1 2 3 4 off en ok no ne show ?thesis
    by (simp add: case_prod_beta)
qed

text \<open>
  C7 as the specification words it fails on the clearing of the flag: when the
  driver refuses to stop, \<open>wifi_csi_disable\<close> returns the driver's code and the
  controller is still enabled.
\<close>

theorem wifi_csi_disable_clears_flag_counterexample:
  "enabled (g_csi_state live_world) \<and>
   fst (wifi_csi_disable env_stop_fails live_world) = 0x3001 \<and>
   fst (wifi_csi_disable env_stop_fails live_world) \<noteq> ESP_OK \<and>
   enabled (g_csi_state (snd (wifi_csi_disable env_stop_fails live_world)))"
  by (simp add: wifi_csi_disable_def drv_def env_stop_fails_def live_world_def ESP_OK_def)

subsection \<open>C8: the configuration record is written first\<close>

text \<open>
  Claim C8. Whatever \<open>wifi_csi_config\<close> returns for a non-\<open>NULL\<close> argument, the
  stored configuration afterwards is the caller's. The record is written before
  any call leaves the module: the log only grows, and every
  \<open>esp_wifi_set_csi_config\<close> made during the operation passes the driver
  configuration built from the new record.
\<close>

theorem wifi_csi_config_records_request:
  "config (g_csi_state (snd (wifi_csi_config e (Some c) w))) = c \<and>
   log_grows (enable_csi_config (target e) c) w (snd (wifi_csi_config e (Some c) w))"
  by (simp add: wifi_csi_config_stores wifi_csi_config_log)

text \<open>C8 where the operation fails: the allocation of the resized buffer is refused.\<close>

theorem wifi_csi_config_records_request_witness:
  "fst (wifi_csi_config env_no_mem (Some cfg_size_8) live_world) = ESP_ERR_NO_MEM \<and>
   fst (wifi_csi_config env_no_mem (Some cfg_size_8) live_world) \<noteq> ESP_OK \<and>
   config (g_csi_state (snd (wifi_csi_config env_no_mem (Some cfg_size_8) live_world)))
     = cfg_size_8 \<and>
   log_grows (enable_csi_config (target env_no_mem) cfg_size_8) live_world
     (snd (wifi_csi_config env_no_mem (Some cfg_size_8) live_world))"
proof -
  have "fst (wifi_csi_config env_no_mem (Some cfg_size_8) live_world) = ESP_ERR_NO_MEM"
    by (simp add: wifi_csi_config_def Let_def env_no_mem_def cfg_size_8_def live_world_def
        live_buffer_def wifi_csi_disable_def drv_def buffer_deinit_def csi_buffer_deinit_def
        buffer_init_def csi_buffer_init_def g_csi_state_init_def)
  with wifi_csi_config_records_request [of env_no_mem cfg_size_8 live_world] show ?thesis
    by (simp add: ESP_ERR_NO_MEM_not_OK)
qed

subsection \<open>C9: the drop counter\<close>

text \<open>
  Claim C9, as the code has it. \<open>dropped\<close> is a plain 32-bit unsigned counter:
  each frame refused by a full buffer adds one modulo \<open>2^32\<close>, so from its maximum
  \<open>0xFFFFFFFF\<close> it wraps to zero. There is no saturation.
\<close>

theorem dropped_counter_wraps:
  assumes "initialized b" "size_buf b \<noteq> 0" "(head b + 1) mod size_buf b = tail b"
  shows "\<exists>b'. csi_buffer_write b f = Inr (False, b') \<and>
              unat (dropped b') = (unat (dropped b) + 1) mod 2 ^ 32 \<and>
              (dropped b = 0xFFFFFFFF \<longrightarrow> dropped b' = 0)"
proof -
  have "unat (dropped b + 1) = (unat (dropped b) + 1) mod 2 ^ 32"
    by (simp add: unat_word_ariths)
  moreover have "dropped b = 0xFFFFFFFF \<longrightarrow> dropped b + 1 = 0"
    by simp
  ultimately show ?thesis
    using csi_buffer_write_full [OF assms, of f] by simp
qed

text \<open>C9 on a full buffer whose counter stands at the maximum.\<close>

theorem dropped_counter_wraps_witness:
  "initialized full_buffer \<and> size_buf full_buffer \<noteq> 0 \<and>
   (head full_buffer + 1) mod size_buf full_buffer = tail full_buffer \<and>
   dropped full_buffer = 0xFFFFFFFF \<and>
   (\<exists>b'. csi_buffer_write full_buffer (test_frame 4) = Inr (False, b') \<and>
         unat (dropped b') = 0 \<and> dropped b' = 0)"
proof -
  have a: "initialized full_buffer" "size_buf full_buffer \<noteq> 0"
    "(head full_buffer + 1) mod size_buf full_buffer = tail full_buffer"
    by (simp_all add: full_buffer_def)
  have d: "dropped full_buffer = 0xFFFFFFFF"
    by (simp add: full_buffer_def)
  from dropped_counter_wraps [OF a, of "test_frame 4"] obtain b' where
    "csi_buffer_write full_buffer (test_frame 4) = Inr (False, b')"
    "dropped full_buffer = 0xFFFFFFFF \<longrightarrow> dropped b' = 0"
    by blast
  with a d show ?thesis
    by simp
qed

text \<open>
  C9 as the specification words it fails: with the counter at \<open>0xFFFFFFFF\<close>, one
  more dropped frame leaves it at 0, not at the maximum.
\<close>

theorem dropped_counter_saturates_counterexample:
  "dropped full_buffer = 0xFFFFFFFF \<and>
   csi_buffer_write full_buffer (test_frame 4) = Inr (False, full_buffer\<lparr>dropped := 0\<rparr>) \<and>
   dropped (full_buffer\<lparr>dropped := 0\<rparr>) \<noteq> 0xFFFFFFFF"
  by (simp add: full_buffer_def csi_buffer_write_def)

subsection \<open>C10: a failed stop during a resize\<close>

text \<open>
  Claim C10, as the code has it. Let the controller be enabled with a live
  buffer, let \<open>wifi_csi_config\<close> ask for another size, and let the driver refuse
  \<open>esp_wifi_set_csi(false)\<close>. The refusal is ignored: the flag stays set, the old
  array is freed and the new one requested, and these three are all the calls
  made; in particular no \<open>esp_wifi_set_csi_config\<close> and no
  \<open>esp_wifi_set_csi_rx_cb\<close> follows. When the allocation succeeds, a fresh empty
  buffer of the new size has taken the place of the old one, the closing
  \<open>wifi_csi_enable\<close> returns at once, and the result is \<open>ESP_OK\<close>. When the
  allocation fails, the result is \<open>ESP_ERR_NO_MEM\<close> and the controller is left
  enabled without a buffer.
\<close>

theorem wifi_csi_config_stop_failure_ignored:
  assumes en: "enabled (g_csi_state w)"
    and sz: "buffer_size c \<noteq> size_buf (buffer (g_csi_state w))"
    and live: "initialized (buffer (g_csi_state w))" "frames (buffer (g_csi_state w)) \<noteq> None"
    and stop: "drv_ret e (calls w) (Esp_wifi_set_csi False) \<noteq> ESP_OK"
  shows "case wifi_csi_config e (Some c) w of (ret, w') \<Rightarrow>
           enabled (g_csi_state w') \<and>
           config (g_csi_state w') = c \<and>
           calls w' = calls w @ [Esp_wifi_set_csi False, Free,
                                 Malloc (sizeof_csi_frame_t * buffer_size c)] \<and>
           (case malloc_ret e (calls w @ [Esp_wifi_set_csi False, Free])
                   (sizeof_csi_frame_t * buffer_size c) of
              Some junk \<Rightarrow>
                ret = ESP_OK \<and>
                buffer (g_csi_state w') =
                  fresh_buffer ((buffer (g_csi_state w))\<lparr>frames := None, initialized := False\<rparr>)
                    (buffer_size c) junk
            | None \<Rightarrow>
                ret = ESP_ERR_NO_MEM \<and>
                buffer (g_csi_state w') =
                  (buffer (g_csi_state w))\<lparr>frames := None, initialized := False\<rparr>)"
  using assms
  by (simp add: wifi_csi_config_def Let_def wifi_csi_disable_def drv_def buffer_deinit_def
      csi_buffer_deinit_def buffer_init_def csi_buffer_init_def wifi_csi_enable_def
      fresh_buffer_def split: option.splits)

text \<open>C10 on the enabled controller, resized from 4 to 8 slots, with a driver that refuses to stop.\<close>

theorem wifi_csi_config_stop_failure_ignored_witness:
  "enabled (g_csi_state live_world) \<and>
   buffer_size cfg_size_8 \<noteq> size_buf (buffer (g_csi_state live_world)) \<and>
   initialized (buffer (g_csi_state live_world)) \<and>
   frames (buffer (g_csi_state live_world)) \<noteq> None \<and>
   drv_ret env_stop_fails (calls live_world) (Esp_wifi_set_csi False) \<noteq> ESP_OK \<and>
   fst (wifi_csi_config env_stop_fails (Some cfg_size_8) live_world) = ESP_OK \<and>
   enabled (g_csi_state (snd (wifi_csi_config env_stop_fails (Some cfg_size_8) live_world))) \<and>
   queued (buffer (g_csi_state (snd (wifi_csi_config env_stop_fails (Some cfg_size_8) live_world))))
     = [] \<and>
   size_buf (buffer (g_csi_state (snd (wifi_csi_config env_stop_fails (Some cfg_size_8) live_world))))
     = 8 \<and>
   calls (snd (wifi_csi_config env_stop_fails (Some cfg_size_8) live_world))
     = [Esp_wifi_set_csi False, Free, Malloc (sizeof_csi_frame_t * 8)]"
proof -
  have en: "enabled (g_csi_state live_world)"
    and sz: "buffer_size cfg_size_8 \<noteq> size_buf (buffer (g_csi_state live_world))"
    and live: "initialized (buffer (g_csi_state live_world))"
      "frames (buffer (g_csi_state live_world)) \<noteq> None"
    and stop: "drv_ret env_stop_fails (calls live_world) (Esp_wifi_set_csi False) \<noteq> ESP_OK"
    and alloc: "malloc_ret env_stop_fails (calls live_world @ [Esp_wifi_set_csi False, Free])
                  (sizeof_csi_frame_t * buffer_size cfg_size_8) = Some (\<lambda>i. zero_frame)"
    by (simp_all add: live_world_def live_buffer_def cfg_size_8_def env_stop_fails_def
        ESP_OK_def)
  have c: "calls live_world = []" "buffer_size cfg_size_8 = 8"
    by (simp_all add: live_world_def cfg_size_8_def)
  from wifi_csi_config_stop_failure_ignored [OF en sz live stop]
    en sz live stop alloc
  show ?thesis
    by (simp add: case_prod_beta c fresh_buffer_def queued_def wifi_csi_available_def)
qed

text \<open>
  C10 as stated fails when the allocation fails as well: the result is
  \<open>ESP_ERR_NO_MEM\<close>, not success, and no new buffer has replaced the old one.
\<close>

theorem wifi_csi_config_stop_failure_success_counterexample:
  "enabled (g_csi_state live_world) \<and>
   buffer_size cfg_size_8 \<noteq> size_buf (buffer (g_csi_state live_world)) \<and>
   drv_ret env_stop_fails_no_mem (calls live_world) (Esp_wifi_set_csi False) \<noteq> ESP_OK \<and>
   fst (wifi_csi_config env_stop_fails_no_mem (Some cfg_size_8) live_world) = ESP_ERR_NO_MEM \<and>
   fst (wifi_csi_config env_stop_fails_no_mem (Some cfg_size_8) live_world) \<noteq> ESP_OK \<and>
   frames (buffer (g_csi_state
      (snd (wifi_csi_config env_stop_fails_no_mem (Some cfg_size_8) live_world)))) = None \<and>
   \<not> initialized (buffer (g_csi_state
      (snd (wifi_csi_config env_stop_fails_no_mem (Some cfg_size_8) live_world)))) \<and>
   enabled (g_csi_state
      (snd (wifi_csi_config env_stop_fails_no_mem (Some cfg_size_8) live_world)))"
  by (simp add: wifi_csi_config_def Let_def env_stop_fails_no_mem_def cfg_size_8_def
      live_world_def live_buffer_def wifi_csi_disable_def drv_def buffer_deinit_def
      csi_buffer_deinit_def buffer_init_def csi_buffer_init_def g_csi_state_init_def
      ESP_OK_def ESP_ERR_NO_MEM_def)

end
